theory Spec2Isabelle
  imports Main "HOL-Library.Sublist" "HOL-Library.Product_Lexorder"
begin

section \<open>Direct ebook and magazine loans of odmpy: \<open>odmpy/processing/ebook.py\<close>\<close>

subsection \<open>Inputs\<close>

text \<open>
  The catalog's media information, as far as \<open>ebook.py\<close> reads it:
  \<open>media_info["type"]["id"]\<close>, \<open>media_info["id"]\<close> and \<open>media_info["formats"]\<close>
  (the formats are only handed on to \<open>extract_isbn\<close>, so their type is left open).
\<close>

record 'f media_info =
  type_id :: string
  media_id :: string
  formats :: 'f

text \<open>
  Modelled from the spec: the constant \<open>LibbyMediaTypes.Magazine\<close> of \<open>odmpy/libby.py\<close>,
  which is not among the sources; the value of the catalog's type id for a magazine.
\<close>

definition LibbyMediaTypes_Magazine :: string where
  "LibbyMediaTypes_Magazine = ''magazine''"

text \<open>
  A roster entry is given by \<open>urlparse(entry["url"]).path\<close>, its \<open>url_path\<close>; for the
  assembly loop it also carries the document that the server returns (see below).
\<close>

type_synonym guesser = "string \<Rightarrow> string option"

text \<open>
  \<open>mimetypes.guess_type(p)[0]\<close> is a function of the standard library and of the type
  tables it reads (Python's built-in table and the platform's \<open>mime.types\<close> files): it is
  a parameter \<open>gt\<close> of every function that calls it. For closed instances the following
  guesser takes the extension as \<open>posixpath.splitext\<close> does (after the last dot of the
  last path component, leading dots aside) and looks it up, in lower case, in a fragment
  of those tables; the rows of \<open>xhtml\<close> and \<open>ncx\<close> come from the platform's files, which
  the code presupposes (lines 350, 369 and 396 test for these two types). Suffixes of
  encodings such as \<open>.gz\<close> are not handled.
\<close>

definition lower_char :: "char \<Rightarrow> char" where
  "lower_char c =
     (case map_of (zip ''ABCDEFGHIJKLMNOPQRSTUVWXYZ'' ''abcdefghijklmnopqrstuvwxyz'') c of
        None \<Rightarrow> c
      | Some l \<Rightarrow> l)"

definition splitext_ext :: "string \<Rightarrow> string option" where
  "splitext_ext p =
     (let base = rev (takeWhile (\<lambda>c. c \<noteq> CHR ''/'') (rev p));
          body = dropWhile (\<lambda>c. c = CHR ''.'') base
      in if CHR ''.'' \<in> set body
         then Some (rev (takeWhile (\<lambda>c. c \<noteq> CHR ''.'') (rev body)))
         else None)"

definition guess_type_std :: guesser where
  "guess_type_std p =
     (case splitext_ext p of
        None \<Rightarrow> None
      | Some ext \<Rightarrow>
          map_of
            [(''jpg'', ''image/jpeg''), (''jpeg'', ''image/jpeg''), (''png'', ''image/png''),
             (''gif'', ''image/gif''), (''svg'', ''image/svg+xml''),
             (''xhtml'', ''application/xhtml+xml''), (''html'', ''text/html''),
             (''css'', ''text/css''), (''ncx'', ''application/x-dtbncx+xml''),
             (''js'', ''text/javascript''), (''json'', ''application/json'')]
            (map lower_char ext))"

subsection \<open>Content Selector: \<open>_filter_content\<close>\<close>

text \<open>Python's \<open>s.startswith(p)\<close> is \<^const>\<open>prefix\<close>; \<open>s[1:]\<close> is \<open>drop 1 s\<close>.\<close>

definition truthy_str :: "string option \<Rightarrow> bool" where
  "truthy_str m = (case m of None \<Rightarrow> False | Some s \<Rightarrow> s \<noteq> [])"

definition filter_content :: "guesser \<Rightarrow> string \<Rightarrow> 'f media_info \<Rightarrow> string list \<Rightarrow> bool" where
  "filter_content gt url_path mi toc_pages =
     (let media_type = gt (drop 1 url_path);
          magazine_rules =
            (if type_id mi = LibbyMediaTypes_Magazine \<and> truthy_str media_type then
               (if prefix ''image/'' (the media_type)
                   \<and> (prefix ''/pages/'' url_path \<or> prefix ''/thumbnails/'' url_path)
                then Some False
                else if the media_type = ''application/xhtml+xml''
                        \<and> drop 1 url_path \<notin> set toc_pages
                then Some False
                else None)
             else None)
      in case magazine_rules of
           Some r \<Rightarrow> r
         | None \<Rightarrow> (if prefix ''/_d/'' url_path then False else True))"

text \<open>The roster filter of \<open>process_ebook_loan\<close> (lines 326 to 331), on the entries' paths.\<close>

definition title_content_entries ::
  "guesser \<Rightarrow> 'f media_info \<Rightarrow> string list \<Rightarrow> string list \<Rightarrow> string list" where
  "title_content_entries gt mi toc_pages entries =
     filter (\<lambda>e. filter_content gt e mi toc_pages) entries"

subsection \<open>Spine Orderer: \<open>_sort_spine_entries\<close> and the sort of \<open>process_ebook_loan\<close>\<close>

datatype error = IndexError | ValueError | AttributeError

record spine_entry =
  odread_original_path :: string
  odread_spine_position :: int

text \<open>\<open>list.index(x)\<close>: the position of the first element equal to \<open>x\<close>, or \<open>ValueError\<close>.\<close>

fun list_index :: "'a list \<Rightarrow> 'a \<Rightarrow> error + nat" where
  "list_index [] x = Inl ValueError"
| "list_index (y # ys) x =
     (if y = x then Inr 0
      else (case list_index ys x of Inl e \<Rightarrow> Inl e | Inr i \<Rightarrow> Inr (Suc i)))"

definition toc_rank :: "string list \<Rightarrow> spine_entry \<Rightarrow> int" where
  "toc_rank toc_pages a =
     (case list_index toc_pages (odread_original_path a) of
        Inr i \<Rightarrow> int i
      | Inl e \<Rightarrow> 999)"

definition sort_spine_entries :: "spine_entry \<Rightarrow> spine_entry \<Rightarrow> string list \<Rightarrow> int" where
  "sort_spine_entries a b toc_pages =
     (let a_index = toc_rank toc_pages a;
          b_index = toc_rank toc_pages b
      in if a_index \<noteq> b_index then (if a_index < b_index then - 1 else 1)
         else (if odread_spine_position a < odread_spine_position b then - 1 else 1))"

text \<open>
  \<open>sorted(xs, key=cmp_to_key(cmp))\<close>: the key objects of \<open>cmp_to_key\<close> compare with
  \<open>cmp(a, b) < 0\<close> as their \<open>__lt__\<close>, \<open>sorted\<close> uses no other comparison, and it is
  stable. The model is the stable insertion sort on that \<open>__lt__\<close>: an element goes in
  front of the first element that is not less than it.
\<close>

definition cmp_lt :: "('a \<Rightarrow> 'a \<Rightarrow> int) \<Rightarrow> 'a \<Rightarrow> 'a \<Rightarrow> bool" where
  "cmp_lt cmp a b = (cmp a b < 0)"

fun insort_cmp :: "('a \<Rightarrow> 'a \<Rightarrow> int) \<Rightarrow> 'a \<Rightarrow> 'a list \<Rightarrow> 'a list" where
  "insort_cmp cmp x [] = [x]"
| "insort_cmp cmp x (y # ys) =
     (if cmp_lt cmp y x then y # insort_cmp cmp x ys else x # y # ys)"

definition sorted_cmp :: "('a \<Rightarrow> 'a \<Rightarrow> int) \<Rightarrow> 'a list \<Rightarrow> 'a list" where
  "sorted_cmp cmp xs = foldr (insort_cmp cmp) xs []"

text \<open>Lines 500 to 513: the magazine filter on the catalog spine, then the sort.\<close>

definition spine_filter :: "'f media_info \<Rightarrow> string list \<Rightarrow> spine_entry list \<Rightarrow> spine_entry list" where
  "spine_filter mi toc_pages spine =
     filter (\<lambda>s. \<not> (type_id mi = LibbyMediaTypes_Magazine
                     \<and> odread_original_path s \<notin> set toc_pages)) spine"

definition sort_spine :: "string list \<Rightarrow> spine_entry list \<Rightarrow> spine_entry list" where
  "sort_spine toc_pages entries = sorted_cmp (\<lambda>a b. sort_spine_entries a b toc_pages) entries"

definition spine_entries :: "'f media_info \<Rightarrow> string list \<Rightarrow> spine_entry list \<Rightarrow> spine_entry list" where
  "spine_entries mi toc_pages spine = sort_spine toc_pages (spine_filter mi toc_pages spine)"

text \<open>
  \<open>precedes x y zs\<close>: both occur in \<open>zs\<close> and every occurrence of \<open>x\<close> is in front of
  every occurrence of \<open>y\<close> (no \<open>x\<close> from the first \<open>y\<close> on).
\<close>

definition precedes :: "'a \<Rightarrow> 'a \<Rightarrow> 'a list \<Rightarrow> bool" where
  "precedes x y zs = (x \<in> set zs \<and> y \<in> set zs \<and> x \<notin> set (dropWhile (\<lambda>z. z \<noteq> y) zs))"

definition in_toc :: "string list \<Rightarrow> spine_entry \<Rightarrow> bool" where
  "in_toc toc_pages a = (odread_original_path a \<in> set toc_pages)"

text \<open>
  The comparison that \<open>sorted\<close> sees is the lexicographic order on the pair of the TOC
  rank and the catalog position (shown below as \<open>cmp_lt_spine_key\<close>).
\<close>

definition spine_key :: "string list \<Rightarrow> spine_entry \<Rightarrow> int \<times> int" where
  "spine_key toc_pages a = (toc_rank toc_pages a, odread_spine_position a)"

subsection \<open>NCX synthesis: \<open>_build_ncx\<close>\<close>

text \<open>An \<open>xml.etree.ElementTree.Element\<close>: tag, attributes, text and sub-elements.\<close>

datatype xml = Element (xml_tag: string) (xml_attrib: "(string \<times> string) list")
  (xml_text: "string option") (xml_subs: "xml list")

record toc_item =
  item_title :: string
  item_path :: string

text \<open>
  The open book, as far as \<open>ebook.py\<close> reads it: \<open>openbook["title"]["main"]\<close>, the names
  \<open>openbook["creator"][k]["name"]\<close>, \<open>openbook["nav"]["toc"]\<close> and \<open>openbook["spine"]\<close>.
\<close>

record openbook =
  title_main :: string
  creator_names :: "string list"
  nav_toc :: "toc_item list"
  catalog_spine :: "spine_entry list"

text \<open>
  Modelled from the spec: the constants \<open>LibbyFormats.EBookOverdrive\<close> and
  \<open>LibbyFormats.MagazineOverDrive\<close> of \<open>odmpy/libby.py\<close>, which is not among the sources.
\<close>

definition LibbyFormats_EBookOverdrive :: string where
  "LibbyFormats_EBookOverdrive = ''ebook-overdrive''"

definition LibbyFormats_MagazineOverDrive :: string where
  "LibbyFormats_MagazineOverDrive = ''magazine-overdrive''"

text \<open>
  \<open>extract_isbn\<close> of \<open>odmpy/processing/shared.py\<close> is not among the sources: it is a
  parameter of \<open>build_ncx\<close>, from the formats and the format ids to what it returns
  (\<open>None\<close> or a string, the empty string included: both are falsy for Python's \<open>or\<close>).
\<close>

type_synonym 'f isbn_extractor = "'f \<Rightarrow> string list \<Rightarrow> string option"

definition or_else :: "string option \<Rightarrow> string \<Rightarrow> string" where
  "or_else m d = (if truthy_str m then the m else d)"

text \<open>The decimal digits of \<open>f"{i}"\<close>.\<close>

definition digit_char :: "nat \<Rightarrow> char" where
  "digit_char d = ''0123456789'' ! d"

function decimal :: "nat \<Rightarrow> string" where
  "decimal n = (if n < 10 then [digit_char n] else decimal (n div 10) @ [digit_char (n mod 10)])"
  by pat_completeness auto
termination
  by (relation "measure id") auto

definition nav_point :: "nat \<Rightarrow> toc_item \<Rightarrow> xml" where
  "nav_point i item =
     Element ''navPoint'' [(''id'', ''navPoint'' @ decimal i)] None
       [Element ''navLabel'' [] None [Element ''text'' [] (Some (item_title item)) []],
        Element ''content'' [(''src'', item_path item)] None []]"

text \<open>\<open>enumerate(xs, start=1)\<close>.\<close>

definition enumerate1 :: "'a list \<Rightarrow> (nat \<times> 'a) list" where
  "enumerate1 xs = zip [1 ..< Suc (length xs)] xs"

definition build_ncx :: "'f isbn_extractor \<Rightarrow> 'f media_info \<Rightarrow> openbook \<Rightarrow> error + xml" where
  "build_ncx extract_isbn mi ob =
     (let publication_identifier =
            or_else (extract_isbn (formats mi)
                       [LibbyFormats_EBookOverdrive, LibbyFormats_MagazineOverDrive])
                    (media_id mi);
          head = Element ''head'' [] None
                   [Element ''meta''
                      [(''content'', publication_identifier), (''name'', ''dtb:uid'')] None []];
          doc_title = Element ''docTitle'' [] None
                        [Element ''text'' [] (Some (title_main ob)) []]
      in case creator_names ob of
           [] \<Rightarrow> Inl IndexError
         | author # others \<Rightarrow>
             Inr (Element ''ncx''
                    [(''version'', ''2005-1''),
                     (''xmlns'', ''http://www.daisy.org/z3986/2005/ncx/''),
                     (''xml:lang'', ''en'')] None
                    [head, doc_title,
                     Element ''docAuthor'' [] None [Element ''text'' [] (Some author) []],
                     Element ''navMap'' [] None
                       (map (\<lambda>(i, item). nav_point i item) (enumerate1 (nav_toc ob)))]))"

text \<open>
  The unique identifiers an NCX carries: the \<open>content\<close> of every \<open>meta\<close> named
  \<open>dtb:uid\<close> in its \<open>head\<close>.
\<close>

definition dtb_uids :: "xml \<Rightarrow> string list" where
  "dtb_uids ncx =
     concat (map (\<lambda>h. concat (map (\<lambda>m.
         (if xml_tag m = ''meta'' \<and> map_of (xml_attrib m) ''name'' = Some ''dtb:uid''
          then (case map_of (xml_attrib m) ''content'' of None \<Rightarrow> [] | Some c \<Rightarrow> [c])
          else [])) (xml_subs h)))
       (filter (\<lambda>h. xml_tag h = ''head'') (xml_subs ncx)))"

text \<open>
  Modelled from the spec: an instance of \<open>extract_isbn\<close> for closed examples. A format
  is its id and its identifiers (type and value); the ISBN is the first non-empty value
  of type \<open>ISBN\<close> among the formats of the given ids, the empty string when there is none.
\<close>

definition extract_isbn_spec :: "(string \<times> (string \<times> string) list) list isbn_extractor" where
  "extract_isbn_spec fs format_types =
     (case filter (\<lambda>v. v \<noteq> [])
             (concat (map (\<lambda>(fid, ids). map snd (filter (\<lambda>(t, v). t = ''ISBN'') ids))
                (filter (\<lambda>(fid, ids). fid \<in> set format_types) fs)))
      of [] \<Rightarrow> Some [] | v # vs \<Rightarrow> Some v)"

subsection \<open>Content Patcher: the magazine CSS patch\<close>

text \<open>
  The regular expression \<open>patch_magazine_css_re\<close>, as the sequence of its items. Every
  repetition in it is over a character class: \<open>StarG\<close> is a greedy \<open>*\<close>, \<open>PlusL\<close> a
  lazy \<open>+?\<close> (\<open>StarL\<close>, a lazy \<open>*?\<close>, is what remains of it after the first character);
  \<open>GOpen\<close> and \<open>GClose\<close> are the parentheses of a group.
\<close>

datatype re_item =
    Lit string
  | StarG "char \<Rightarrow> bool"
  | PlusL "char \<Rightarrow> bool"
  | StarL "char \<Rightarrow> bool"
  | GOpen nat
  | GClose nat

text \<open>
  \<open>\s\<close> on a \<open>str\<close> pattern, for the characters below 256: tab to carriage return,
  the separators 28 to 31, the space, NEL and the no-break space.
\<close>

definition re_space :: "char \<Rightarrow> bool" where
  "re_space c = (of_char c \<in> set [9, 10, 11, 12, 13, 28, 29, 30, 31, 32, 133, (160::nat)])"

definition not_brace :: "char \<Rightarrow> bool" where
  "not_brace c = (c \<noteq> CHR ''{'' \<and> c \<noteq> CHR ''}'')"

definition patch_magazine_css_re :: "re_item list" where
  "patch_magazine_css_re =
     [GOpen 1, Lit ''#article-body'', StarG re_space, Lit ''{'', PlusL not_brace, GClose 1,
      Lit ''overflow-x:'', StarG re_space, Lit ''hidden;'',
      GOpen 2, PlusL not_brace, Lit ''}'', GClose 2]"

text \<open>
  The groups while matching: number, whether still open, and the text so far. A consumed
  character goes to every open group.
\<close>

type_synonym re_groups = "(nat \<times> bool \<times> string) list"

definition consume :: "char \<Rightarrow> re_groups \<Rightarrow> re_groups" where
  "consume c gs = map (\<lambda>(g, is_open, t). if is_open then (g, is_open, t @ [c]) else (g, is_open, t)) gs"

definition close_group :: "nat \<Rightarrow> re_groups \<Rightarrow> re_groups" where
  "close_group n gs = map (\<lambda>(g, is_open, t). if g = n then (g, False, t) else (g, is_open, t)) gs"

definition group :: "re_groups \<Rightarrow> nat \<Rightarrow> string" where
  "group gs n = (case filter (\<lambda>(g, is_open, t). g = n) gs of [] \<Rightarrow> [] | (g, is_open, t) # r \<Rightarrow> t)"

text \<open>
  The backtracking matcher, anchored at the start of the text: the groups and the rest of
  the text after the first match in the order in which \<open>re\<close> tries the alternatives
  (a greedy repetition takes a character first, a lazy one tries the continuation first).
\<close>

fun re_match :: "re_item list \<Rightarrow> string \<Rightarrow> re_groups \<Rightarrow> (re_groups \<times> string) option" where
  "re_match [] s gs = Some (gs, s)"
| "re_match (Lit [] # items) s gs = re_match items s gs"
| "re_match (Lit (c # cs) # items) [] gs = None"
| "re_match (Lit (c # cs) # items) (d # ds) gs =
     (if c = d then re_match (Lit cs # items) ds (consume d gs) else None)"
| "re_match (StarG p # items) [] gs = re_match items [] gs"
| "re_match (StarG p # items) (d # ds) gs =
     (if p d then
        (case re_match (StarG p # items) ds (consume d gs) of
           Some r \<Rightarrow> Some r
         | None \<Rightarrow> re_match items (d # ds) gs)
      else re_match items (d # ds) gs)"
| "re_match (PlusL p # items) [] gs = None"
| "re_match (PlusL p # items) (d # ds) gs =
     (if p d then re_match (StarL p # items) ds (consume d gs) else None)"
| "re_match (StarL p # items) [] gs = re_match items [] gs"
| "re_match (StarL p # items) (d # ds) gs =
     (case re_match items (d # ds) gs of
        Some r \<Rightarrow> Some r
      | None \<Rightarrow> (if p d then re_match (StarL p # items) ds (consume d gs) else None))"
| "re_match (GOpen n # items) s gs = re_match items s ((n, True, []) # gs)"
| "re_match (GClose n # items) s gs = re_match items s (close_group n gs)"

text \<open>
  \<open>patch_magazine_css_re.sub(r"\1\2", text)\<close>: scanning from the left, the first match at
  each position is replaced by its groups 1 and 2 and the scan goes on behind the match;
  \<open>skip\<close> counts the characters of the current match still to be passed over.
\<close>

fun re_sub_12 :: "re_item list \<Rightarrow> nat \<Rightarrow> string \<Rightarrow> string" where
  "re_sub_12 items skip [] = []"
| "re_sub_12 items (Suc skip) (c # cs) = re_sub_12 items skip cs"
| "re_sub_12 items 0 (c # cs) =
     (case re_match items (c # cs) [] of
        None \<Rightarrow> c # re_sub_12 items 0 cs
      | Some (gs, rest) \<Rightarrow>
          group gs 1 @ group gs 2 @ re_sub_12 items (length cs - length rest) cs)"

definition patch_magazine_css :: "string \<Rightarrow> string" where
  "patch_magazine_css css = re_sub_12 patch_magazine_css_re 0 css"

text \<open>
  An \<open>#article-body\<close> rule block in a CSS text: an occurrence of \<open>#article-body\<close>
  followed, after any white space, by the opening brace.
\<close>

fun tails :: "'a list \<Rightarrow> 'a list list" where
  "tails [] = [[]]"
| "tails (x # xs) = (x # xs) # tails xs"

definition block_at :: "string \<Rightarrow> bool" where
  "block_at s = (prefix ''#article-body'' s
     \<and> (case dropWhile re_space (drop 13 s) of [] \<Rightarrow> False | c # t \<Rightarrow> c = CHR ''{''))"

definition has_article_body_block :: "string \<Rightarrow> bool" where
  "has_article_body_block css = (\<exists>t \<in> set (tails css). block_at t)"

subsection \<open>Documents: the parse tree of BeautifulSoup\<close>

text \<open>
  A node of the tree that \<open>BeautifulSoup(text, features="html.parser")\<close> builds: a tag
  with its name, its attributes (a dictionary from names to values, in document order)
  and its contents, a string, or a document type declaration. A soup is the list of the
  top-level nodes, \<open>soup.contents\<close>. The parser itself is a library function: where the
  code parses a text, the model takes the parser as a parameter.
\<close>

datatype node =
    Tag string "(string \<times> string) list" "node list"
  | NavigableString string
  | Doctype string

type_synonym soup = "node list"

type_synonym tag_head = "string \<times> (string \<times> string) list"

text \<open>All nodes below (and including) a node, in document order.\<close>

fun descendants :: "node \<Rightarrow> node list" where
  "descendants (Tag n a cs) = Tag n a cs # concat (map descendants cs)"
| "descendants (NavigableString s) = [NavigableString s]"
| "descendants (Doctype d) = [Doctype d]"

definition soup_descendants :: "soup \<Rightarrow> node list" where
  "soup_descendants soup = concat (map descendants soup)"

fun is_tag_named :: "string \<Rightarrow> node \<Rightarrow> bool" where
  "is_tag_named nm (Tag n a cs) = (n = nm)"
| "is_tag_named nm (NavigableString s) = False"
| "is_tag_named nm (Doctype d) = False"

fun attr_is :: "string \<Rightarrow> string \<Rightarrow> node \<Rightarrow> bool" where
  "attr_is k v (Tag n a cs) = (map_of a k = Some v)"
| "attr_is k v (NavigableString s) = False"
| "attr_is k v (Doctype d) = False"

text \<open>\<open>soup.find_all(...)\<close> and \<open>soup.find(...)\<close> for a test \<open>p\<close> on tags.\<close>

definition find_all :: "(node \<Rightarrow> bool) \<Rightarrow> soup \<Rightarrow> node list" where
  "find_all p soup = filter p (soup_descendants soup)"

definition find_first :: "(node \<Rightarrow> bool) \<Rightarrow> soup \<Rightarrow> node option" where
  "find_first p soup = (case find_all p soup of [] \<Rightarrow> None | t # ts \<Rightarrow> Some t)"

text \<open>Attribute dictionaries: \<open>tag.get(k)\<close> is \<open>map_of a k\<close>; \<open>del tag[k]\<close>; \<open>tag[k] = v\<close>.\<close>

definition del_attr :: "string \<Rightarrow> (string \<times> string) list \<Rightarrow> (string \<times> string) list" where
  "del_attr k a = filter (\<lambda>kv. fst kv \<noteq> k) a"

fun set_attr :: "string \<Rightarrow> string \<Rightarrow> (string \<times> string) list \<Rightarrow> (string \<times> string) list" where
  "set_attr k v [] = [(k, v)]"
| "set_attr k v (kv # a) = (if fst kv = k then (k, v) # a else kv # set_attr k v a)"

text \<open>\<open>if not tag.get(k): tag[k] = v\<close>.\<close>

definition set_default :: "string \<Rightarrow> string \<Rightarrow> (string \<times> string) list \<Rightarrow> (string \<times> string) list" where
  "set_default k v a = (if truthy_str (map_of a k) then a else set_attr k v a)"

text \<open>
  A loop \<open>for tag in soup.find_all(...): (change the name or the attributes of tag)\<close>
  rewrites the head of every tag of the tree.
\<close>

fun map_tags :: "(tag_head \<Rightarrow> tag_head) \<Rightarrow> node \<Rightarrow> node" where
  "map_tags f (Tag n a cs) = Tag (fst (f (n, a))) (snd (f (n, a))) (map (map_tags f) cs)"
| "map_tags f (NavigableString s) = NavigableString s"
| "map_tags f (Doctype d) = Doctype d"

definition remove_attribute :: "string \<Rightarrow> soup \<Rightarrow> soup" where
  "remove_attribute k soup = map (map_tags (\<lambda>(n, a). (n, del_attr k a))) soup"

definition convert_tag :: "string \<Rightarrow> soup \<Rightarrow> soup" where
  "convert_tag nm soup = map (map_tags (\<lambda>(n, a). (if n = nm then ''div'' else n, a))) soup"

definition svg_namespaces :: "soup \<Rightarrow> soup" where
  "svg_namespaces soup =
     map (map_tags (\<lambda>(n, a).
       if n = ''svg''
       then (n, set_default ''xmlns:xlink'' ''http://www.w3.org/1999/xlink''
                 (set_default ''xmlns'' ''http://www.w3.org/2000/svg'' a))
       else (n, a))) soup"

text \<open>\<open>for t in soup.find_all(nm): t.decompose()\<close>: every tag of that name goes, with its contents.\<close>

fun decompose_in :: "string \<Rightarrow> node \<Rightarrow> node" where
  "decompose_in nm (Tag n a cs) =
     Tag n a (map (decompose_in nm) (filter (\<lambda>c. \<not> is_tag_named nm c) cs))"
| "decompose_in nm (NavigableString s) = NavigableString s"
| "decompose_in nm (Doctype d) = Doctype d"

definition remove_tag :: "string \<Rightarrow> soup \<Rightarrow> soup" where
  "remove_tag nm soup = map (decompose_in nm) (filter (\<lambda>c. \<not> is_tag_named nm c) soup)"

text \<open>
  Changing the tag that \<open>soup.find(...)\<close> returns: the first tag in document order that
  passes the test \<open>p\<close> becomes \<open>f\<close> of it; \<open>None\<close> when there is no such tag.
\<close>

fun update_first :: "(node \<Rightarrow> bool) \<Rightarrow> (node \<Rightarrow> node) \<Rightarrow> node \<Rightarrow> node option"
  and update_first_in :: "(node \<Rightarrow> bool) \<Rightarrow> (node \<Rightarrow> node) \<Rightarrow> node list \<Rightarrow> node list option" where
  "update_first p f (Tag n a cs) =
     (if p (Tag n a cs) then Some (f (Tag n a cs))
      else map_option (Tag n a) (update_first_in p f cs))"
| "update_first p f (NavigableString s) = None"
| "update_first p f (Doctype d) = None"
| "update_first_in p f [] = None"
| "update_first_in p f (c # cs) =
     (case update_first p f c of
        Some c' \<Rightarrow> Some (c' # cs)
      | None \<Rightarrow> map_option ((#) c) (update_first_in p f cs))"

fun html_xmlns :: "node \<Rightarrow> node" where
  "html_xmlns (Tag n a cs) = Tag n (set_default ''xmlns'' ''http://www.w3.org/1999/xhtml'' a) cs"
| "html_xmlns (NavigableString s) = NavigableString s"
| "html_xmlns (Doctype d) = Doctype d"

definition html_namespace :: "soup \<Rightarrow> soup" where
  "html_namespace soup =
     (case update_first_in (is_tag_named ''html'') html_xmlns soup of
        None \<Rightarrow> soup
      | Some soup' \<Rightarrow> soup')"

subsection \<open>Content Patcher: \<open>_cleanup_soup\<close>\<close>

definition modified_doctype :: string where
  "modified_doctype =
     ''html PUBLIC \"-//W3C//DTD XHTML 1.1//EN\" \"http://www.w3.org/TR/xhtml11/DTD/xhtml11.dtd\"''"

text \<open>The first document type declaration of \<open>soup.contents\<close> is replaced (\<open>break\<close>).\<close>

fun replace_doctype :: "soup \<Rightarrow> soup" where
  "replace_doctype [] = []"
| "replace_doctype (Doctype d # items) = Doctype modified_doctype # items"
| "replace_doctype (Tag n a cs # items) = Tag n a cs # replace_doctype items"
| "replace_doctype (NavigableString s # items) = NavigableString s # replace_doctype items"

definition remove_attributes :: "string list" where
  "remove_attributes =
     [''aria-label'', ''data-loc'', ''data-epub-type'', ''data-document-status'',
      ''data-xml-lang'', ''lang'', ''role'', ''epub:type'', ''epub:prefix'']"

definition cleanup_soup :: "string \<Rightarrow> soup \<Rightarrow> soup" where
  "cleanup_soup version soup =
     (let soup1 =
            (if version = ''2.0''
             then fold convert_tag [''nav'', ''section'']
                    (fold remove_attribute remove_attributes (replace_doctype soup))
             else soup);
          soup2 = svg_namespaces soup1;
          soup3 = fold convert_tag [''figcaption''] soup2;
          soup4 = fold remove_tag [''base''] soup3
      in html_namespace soup4)"


text \<open>
  Proof devices for \<open>_cleanup_soup\<close>: a property of the head of every tag of a tree, and
  the first document type declaration of \<open>soup.contents\<close>.
\<close>

fun all_tags :: "(tag_head \<Rightarrow> bool) \<Rightarrow> node \<Rightarrow> bool" where
  "all_tags P (Tag n a cs) = (P (n, a) \<and> (\<forall>c \<in> set cs. all_tags P c))"
| "all_tags P (NavigableString s) = True"
| "all_tags P (Doctype d) = True"

fun first_doctype :: "soup \<Rightarrow> string option" where
  "first_doctype [] = None"
| "first_doctype (Doctype d # items) = Some d"
| "first_doctype (Tag n a cs # items) = first_doctype items"
| "first_doctype (NavigableString s # items) = first_doctype items"

definition soup_all :: "(tag_head \<Rightarrow> bool) \<Rightarrow> soup \<Rightarrow> bool" where
  "soup_all P soup = (\<forall>c \<in> set soup. all_tags P c)"

text \<open>What \<open>_cleanup_soup\<close> leaves of the head of a tag, and the heads it leaves alone.\<close>

definition cleanup_head :: "string \<Rightarrow> tag_head \<Rightarrow> tag_head" where
  "cleanup_head version h =
     (let h1 = (if version = ''2.0''
                then (if fst h = ''nav'' \<or> fst h = ''section'' then ''div'' else fst h,
                      filter (\<lambda>kv. fst kv \<notin> set remove_attributes) (snd h))
                else h);
          h2 = (if fst h1 = ''svg''
                then (fst h1, set_default ''xmlns:xlink'' ''http://www.w3.org/1999/xlink''
                        (set_default ''xmlns'' ''http://www.w3.org/2000/svg'' (snd h1)))
                else h1)
      in (if fst h2 = ''figcaption'' then ''div'' else fst h2, snd h2))"

definition clean_head :: "string \<Rightarrow> tag_head \<Rightarrow> bool" where
  "clean_head version h =
     (fst h \<noteq> ''figcaption''
      \<and> (fst h = ''svg'' \<longrightarrow> truthy_str (map_of (snd h) ''xmlns'')
                             \<and> truthy_str (map_of (snd h) ''xmlns:xlink''))
      \<and> (version = ''2.0'' \<longrightarrow> fst h \<noteq> ''nav'' \<and> fst h \<noteq> ''section''
            \<and> (\<forall>kv \<in> set (snd h). fst kv \<notin> set remove_attributes)))"


subsection \<open>Content Patcher: the embedded body\<close>

text \<open>\<open>tag.string\<close>: the only child when it is a string, the \<open>string\<close> of an only child tag.\<close>

fun tag_string :: "node \<Rightarrow> string option" where
  "tag_string (Tag n a [NavigableString s]) = Some s"
| "tag_string (Tag n a [Doctype d]) = Some d"
| "tag_string (Tag n a [Tag n' a' cs']) = tag_string (Tag n' a' cs')"
| "tag_string (Tag n a []) = None"
| "tag_string (Tag n a (c # c' # cs)) = None"
| "tag_string (NavigableString s) = Some s"
| "tag_string (Doctype d) = Some d"

text \<open>
  \<open>contents_re.search(text)\<close> and, on a match, the soup of the decoded group
  \<open>BeautifulSoup(base64.b64decode(mobj.group("base64_text")), features="html.parser")\<close>
  are library calls: together they are a parameter \<open>emb\<close>, \<open>None\<close> when the text does not
  match, an error when the group does not decode.
\<close>

type_synonym embedded = "string \<Rightarrow> (error + soup) option"

definition is_js_script :: "node \<Rightarrow> bool" where
  "is_js_script t = (is_tag_named ''script'' t \<and> attr_is ''type'' ''text/javascript'' t)"

definition decode_body :: "embedded \<Rightarrow> soup \<Rightarrow> error + soup" where
  "decode_body emb soup =
     (case find_first is_js_script soup of
        None \<Rightarrow> Inr soup
      | Some script_ele \<Rightarrow>
          (case emb (case tag_string script_ele of None \<Rightarrow> [] | Some s \<Rightarrow> s) of
             None \<Rightarrow> Inr soup
           | Some (Inl e) \<Rightarrow> Inl e
           | Some (Inr new_soup) \<Rightarrow>
               (case find_first (is_tag_named ''body'') soup of
                  None \<Rightarrow> Inl AttributeError
                | Some body \<Rightarrow>
                    (case find_first (is_tag_named ''body'') new_soup of
                       None \<Rightarrow> Inl ValueError
                     | Some new_body \<Rightarrow>
                         (case update_first_in (is_tag_named ''body'') (\<lambda>b. new_body) soup of
                            None \<Rightarrow> Inl AttributeError
                          | Some soup' \<Rightarrow> Inr soup')))))"

text \<open>
  Lines 398 to 407: the soup in memory after the embedded body and the cleanup, with the
  version \<open>epub_version = "3.0"\<close> of \<open>process_ebook_loan\<close>. This soup is what lines 410
  to 415 inspect.
\<close>

definition epub_version :: string where
  "epub_version = ''3.0''"

definition patch_soup :: "embedded \<Rightarrow> soup \<Rightarrow> error + soup" where
  "patch_soup emb soup =
     (case decode_body emb soup of
        Inl e \<Rightarrow> Inl e
      | Inr soup' \<Rightarrow> Inr (cleanup_soup epub_version soup'))"

text \<open>
  Lines 397 to 409 from text to text: the response text is parsed (line 397), patched,
  and written as \<open>str(soup)\<close> (line 409). The parser \<open>BeautifulSoup(text,
  features="html.parser")\<close> and the writer \<open>str(soup)\<close> are library functions and
  parameters of the model. A written file that is patched again is parsed again: it is
  not its soup.
\<close>

type_synonym parser = "string \<Rightarrow> soup"

type_synonym renderer = "soup \<Rightarrow> string"

definition patch_xhtml :: "parser \<Rightarrow> renderer \<Rightarrow> embedded \<Rightarrow> string \<Rightarrow> error + string" where
  "patch_xhtml parse render emb text =
     (case patch_soup emb (parse text) of
        Inl e \<Rightarrow> Inl e
      | Inr soup \<Rightarrow> Inr (render soup))"

text \<open>
  An instance of the writer for closed examples, after the default formatter of
  \<open>bs4\<close>: the attributes of a tag sorted by name, their values and the strings with
  \<open>&\<close>, \<open><\<close> and \<open>>\<close> replaced by entities (the strings of a \<open>script\<close> or \<open>style\<close> as they
  are), an empty void tag closed in place, and a document type declaration followed by a
  newline.
\<close>

definition void_tags :: "string list" where
  "void_tags =
     [''area'', ''base'', ''br'', ''col'', ''embed'', ''hr'', ''img'', ''input'', ''keygen'',
      ''link'', ''menuitem'', ''meta'', ''param'', ''source'', ''track'', ''wbr'',
      ''basefont'', ''bgsound'', ''command'', ''frame'', ''image'', ''isindex'', ''nextid'',
      ''spacer'']"

definition substitute_xml :: "string \<Rightarrow> string" where
  "substitute_xml v =
     concat (map (\<lambda>c. if c = CHR ''&'' then ''&amp;''
                       else if c = CHR ''<'' then ''&lt;''
                       else if c = CHR ''>'' then ''&gt;''
                       else [c]) v)"

definition quoted_attribute_value :: "string \<Rightarrow> string" where
  "quoted_attribute_value v =
     (if CHR 0x22 \<in> set v
      then (if CHR 0x27 \<in> set v
            then [CHR 0x22] @ concat (map (\<lambda>c. if c = CHR 0x22 then ''&quot;'' else [c]) v)
                   @ [CHR 0x22]
            else [CHR 0x27] @ v @ [CHR 0x27])
      else [CHR 0x22] @ v @ [CHR 0x22])"

fun str_le :: "string \<Rightarrow> string \<Rightarrow> bool" where
  "str_le [] t = True"
| "str_le (c # cs) [] = False"
| "str_le (c # cs) (d # ds) =
     ((of_char c :: nat) < of_char d \<or> (c = d \<and> str_le cs ds))"

fun insort_attr :: "string \<times> string \<Rightarrow> (string \<times> string) list \<Rightarrow> (string \<times> string) list" where
  "insort_attr kv [] = [kv]"
| "insort_attr kv (kv' # a) =
     (if str_le (fst kv) (fst kv') then kv # kv' # a else kv' # insort_attr kv a)"

definition sorted_attrs :: "(string \<times> string) list \<Rightarrow> (string \<times> string) list" where
  "sorted_attrs a = foldr insort_attr a []"

fun render_node :: "string \<Rightarrow> node \<Rightarrow> string" where
  "render_node parent (Tag n a cs) =
     ''<'' @ n
       @ concat (map (\<lambda>kv. '' '' @ fst kv @ ''='' @ quoted_attribute_value (substitute_xml (snd kv)))
                   (sorted_attrs a))
       @ (if n \<in> set void_tags \<and> cs = [] then ''/>''
          else ''>'' @ concat (map (render_node n) cs) @ ''</'' @ n @ ''>'')"
| "render_node parent (NavigableString v) =
     (if parent = ''script'' \<or> parent = ''style'' then v else substitute_xml v)"
| "render_node parent (Doctype d) = ''<!DOCTYPE '' @ d @ ''>'' @ [CHR 0x0A]"

definition render_std :: renderer where
  "render_std soup = concat (map (render_node ''[document]'') soup)"

text \<open>
  An instance of the parser for closed examples, on three texts: a document with a
  document type declaration, what the patcher writes for it, and what the patcher writes
  for that. The newline that the writer puts behind the declaration comes back as a
  string of the soup.
\<close>

definition doctype_text_0 :: string where
  "doctype_text_0 = ''<!DOCTYPE html><html><body></body></html>''"

definition doctype_soup_0 :: soup where
  "doctype_soup_0 = [Doctype ''html'', Tag ''html'' [] [Tag ''body'' [] []]]"

definition doctype_text_1 :: string where
  "doctype_text_1 =
     ''<!DOCTYPE html>'' @ [CHR 0x0A]
       @ ''<html xmlns=\"http://www.w3.org/1999/xhtml\"><body></body></html>''"

definition doctype_soup_1 :: soup where
  "doctype_soup_1 =
     [Doctype ''html'', NavigableString [CHR 0x0A],
      Tag ''html'' [(''xmlns'', ''http://www.w3.org/1999/xhtml'')] [Tag ''body'' [] []]]"

definition doctype_text_2 :: string where
  "doctype_text_2 =
     ''<!DOCTYPE html>'' @ [CHR 0x0A, CHR 0x0A]
       @ ''<html xmlns=\"http://www.w3.org/1999/xhtml\"><body></body></html>''"

definition doctype_soup_2 :: soup where
  "doctype_soup_2 =
     [Doctype ''html'', NavigableString [CHR 0x0A, CHR 0x0A],
      Tag ''html'' [(''xmlns'', ''http://www.w3.org/1999/xhtml'')] [Tag ''body'' [] []]]"

definition parse_example :: parser where
  "parse_example text =
     (if text = doctype_text_0 then doctype_soup_0
      else if text = doctype_text_1 then doctype_soup_1
      else if text = doctype_text_2 then doctype_soup_2
      else [])"

text \<open>
  Two matching script texts with their groups, for closed examples: \<open>payload_text_1\<close>
  holds the base64 of the document
  \<open><html><body><script type="text/javascript">payload_text_2</script></body></html>\<close>
  and \<open>payload_text_2\<close> the base64 of \<open><html><body><p>x</p></body></html>\<close>.
\<close>

definition payload_text_2 :: string where
  "payload_text_2 =
     ''parent.__bif_cfc0(self,'' @ [CHR 0x27]
       @ ''PGh0bWw+PGJvZHk+PHA+eDwvcD48L2JvZHk+PC9odG1sPg=='' @ [CHR 0x27] @ '')''"

definition payload_soup_2 :: soup where
  "payload_soup_2 =
     [Tag ''html'' [] [Tag ''body'' [] [Tag ''p'' [] [NavigableString ''x'']]]]"

definition payload_text_1 :: string where
  "payload_text_1 =
     ''parent.__bif_cfc0(self,'' @ [CHR 0x27]
       @ ''PGh0bWw+PGJvZHk+PHNjcmlwdCB0eXBlPSJ0ZXh0L2phdmFzY3JpcHQiPnBhcmVudC5fX2JpZl9jZmMwKHNlbGYsJ1BHaDBiV3crUEdKdlpIaytQSEErZUR3dmNENDhMMkp2WkhrK1BDOW9kRzFzUGc9PScpPC9zY3JpcHQ+PC9ib2R5PjwvaHRtbD4=''
       @ [CHR 0x27] @ '')''"

definition payload_soup_1 :: soup where
  "payload_soup_1 =
     [Tag ''html'' []
        [Tag ''body'' []
           [Tag ''script'' [(''type'', ''text/javascript'')] [NavigableString payload_text_2]]]]"

definition emb_example :: embedded where
  "emb_example text =
     (if text = payload_text_1 then Some (Inr payload_soup_1)
      else if text = payload_text_2 then Some (Inr payload_soup_2)
      else None)"


definition outer_doc :: soup where
  "outer_doc =
     [Tag ''html'' []
        [Tag ''head'' [] [],
         Tag ''body'' []
           [Tag ''script'' [(''type'', ''text/javascript'')] [NavigableString payload_text_1]]]]"

definition patched_once :: soup where
  "patched_once =
     [Tag ''html'' [(''xmlns'', ''http://www.w3.org/1999/xhtml'')]
        [Tag ''head'' [] [],
         Tag ''body'' []
           [Tag ''script'' [(''type'', ''text/javascript'')] [NavigableString payload_text_2]]]]"

definition patched_twice :: soup where
  "patched_twice =
     [Tag ''html'' [(''xmlns'', ''http://www.w3.org/1999/xhtml'')]
        [Tag ''head'' [] [],
         Tag ''body'' [] [Tag ''p'' [] [NavigableString ''x'']]]]"

subsection \<open>Manifest Builder: the entry loop of \<open>process_ebook_loan\<close>\<close>

text \<open>
  \<open>slugify\<close> of \<open>odmpy/utils.py\<close> is not among the sources: it is a parameter of
  \<open>sanitise_opf_id\<close>. \<open>string_id[0]\<close> raises \<open>IndexError\<close> on an empty slug;
  \<open>isdigit\<close> is taken on ASCII, which is what a slug holds.
\<close>

definition isdigit :: "char \<Rightarrow> bool" where
  "isdigit c = (48 \<le> (of_char c :: nat) \<and> (of_char c :: nat) \<le> 57)"

definition sanitise_opf_id :: "(string \<Rightarrow> string) \<Rightarrow> string \<Rightarrow> error + string" where
  "sanitise_opf_id slugify string_id =
     (case slugify string_id of
        [] \<Rightarrow> Inl IndexError
      | c # cs \<Rightarrow> (if isdigit c then Inr (''id_'' @ c # cs) else Inr (c # cs)))"

text \<open>
  Modelled from the spec: an instance of \<open>slugify\<close> for closed examples, which normalises
  an ASCII path to a safe token: lower case, only letters, digits, underscores and
  hyphens kept, every run of white space and hyphens turned into one hyphen, hyphens and
  underscores stripped from both ends.
\<close>

definition slug_keep :: "char \<Rightarrow> bool" where
  "slug_keep c = ((97 \<le> (of_char c :: nat) \<and> (of_char c :: nat) \<le> 122) \<or> isdigit c
                  \<or> c = CHR ''_'' \<or> c = CHR ''-'' \<or> re_space c)"

fun slug_collapse :: "bool \<Rightarrow> string \<Rightarrow> string" where
  "slug_collapse in_run [] = []"
| "slug_collapse in_run (c # cs) =
     (if c = CHR ''-'' \<or> re_space c
      then (if in_run then slug_collapse True cs else CHR ''-'' # slug_collapse True cs)
      else c # slug_collapse False cs)"

definition slug_strip :: "string \<Rightarrow> string" where
  "slug_strip s =
     dropWhile (\<lambda>c. c = CHR ''-'' \<or> c = CHR ''_'')
       (rev (dropWhile (\<lambda>c. c = CHR ''-'' \<or> c = CHR ''_'') (rev s)))"

definition slugify_std :: "string \<Rightarrow> string" where
  "slugify_std v = slug_strip (slug_collapse False (filter slug_keep (map lower_char v)))"

record manifest_entry =
  href :: string
  opf_id :: string
  media_type :: "string option"
  properties :: "string option"

text \<open>
  A roster entry of the loop: \<open>urlparse(entry["url"]).path\<close> and the soup of the text
  that the server returns for it (read only when the entry is downloaded as XHTML; a
  request that fails aborts the run and is not part of the model).
\<close>

record roster_entry =
  entry_path :: string
  entry_response :: soup

text \<open>
  The state of the loop: the asset files on disk (by their path under the content
  folder; for an XHTML file the soup that parsing it gives, the contents of other files
  are not looked at), the manifest entries so far and the two flags. An XHTML file that
  the loop writes is \<open>str(soup)\<close>, so the soup of the file is \<open>parse (render soup)\<close>.
\<close>

record loop_state =
  files :: "string \<rightharpoonup> soup"
  manifest_entries :: "manifest_entry list"
  has_ncx :: bool
  has_nav :: bool

text \<open>Lines 372 to 377 and 410 to 415: the properties of an XHTML entry.\<close>

definition check_properties :: "soup \<Rightarrow> manifest_entry \<times> bool \<Rightarrow> manifest_entry \<times> bool" where
  "check_properties soup s =
     (let me = fst s;
          me1 = (if find_all (is_tag_named ''svg'') soup \<noteq> []
                 then me\<lparr>properties := Some ''svg''\<rparr> else me)
      in if find_first (attr_is ''epub:type'' ''toc'') soup \<noteq> None
         then (me1\<lparr>properties := Some ''nav''\<rparr>, True)
         else (me1, snd s))"

definition entry_id :: "guesser \<Rightarrow> (string \<Rightarrow> string) \<Rightarrow> string \<Rightarrow> error + string" where
  "entry_id gt slugify url_path =
     (if gt (drop 1 url_path) = Some ''application/x-dtbncx+xml'' then Inr ''ncx''
      else sanitise_opf_id slugify (drop 1 url_path))"

definition add_entry :: "manifest_entry \<Rightarrow> loop_state \<Rightarrow> loop_state" where
  "add_entry me st = st\<lparr>manifest_entries := manifest_entries st @ [me]\<rparr>"

definition process_entry ::
  "guesser \<Rightarrow> (string \<Rightarrow> string) \<Rightarrow> embedded \<Rightarrow> parser \<Rightarrow> renderer \<Rightarrow> 'f media_info
     \<Rightarrow> loop_state \<Rightarrow> roster_entry \<Rightarrow> error + loop_state" where
  "process_entry gt slugify emb parse render mi st entry =
     (let path = entry_path entry;
          mtype = gt (drop 1 path);
          st1 = (if mtype = Some ''application/x-dtbncx+xml'' then st\<lparr>has_ncx := True\<rparr> else st)
      in case entry_id gt slugify path of
           Inl e \<Rightarrow> Inl e
         | Inr ident \<Rightarrow>
            (let manifest_entry =
                   \<lparr>href = drop 1 path, opf_id = ident, media_type = mtype, properties = None\<rparr>
             in case files st1 (drop 1 path) of
                  Some saved \<Rightarrow>
                    (if mtype = Some ''application/xhtml+xml''
                     then (let r = check_properties saved (manifest_entry, has_nav st1)
                           in Inr (add_entry (fst r) (st1\<lparr>has_nav := snd r\<rparr>)))
                     else Inr (add_entry manifest_entry st1))
                | None \<Rightarrow>
                    (if type_id mi = LibbyMediaTypes_Magazine \<and> mtype = Some ''text/css''
                     then Inr (add_entry manifest_entry
                                 (st1\<lparr>files := (files st1)(drop 1 path \<mapsto> [])\<rparr>))
                     else if mtype = Some ''application/xhtml+xml''
                     then (case patch_soup emb (entry_response entry) of
                             Inl e \<Rightarrow> Inl e
                           | Inr soup \<Rightarrow>
                              (let r = check_properties soup (manifest_entry, has_nav st1)
                               in Inr (add_entry (fst r)
                                    (st1\<lparr>files := (files st1)(drop 1 path \<mapsto> parse (render soup)),
                                          has_nav := snd r\<rparr>))))
                     else Inr (add_entry manifest_entry
                                 (st1\<lparr>files := (files st1)(drop 1 path \<mapsto> [])\<rparr>)))))"

fun process_entries ::
  "guesser \<Rightarrow> (string \<Rightarrow> string) \<Rightarrow> embedded \<Rightarrow> parser \<Rightarrow> renderer \<Rightarrow> 'f media_info
     \<Rightarrow> loop_state \<Rightarrow> roster_entry list \<Rightarrow> error + loop_state" where
  "process_entries gt slugify emb parse render mi st [] = Inr st"
| "process_entries gt slugify emb parse render mi st (entry # entries) =
     (case process_entry gt slugify emb parse render mi st entry of
        Inl e \<Rightarrow> Inl e
      | Inr st' \<Rightarrow> process_entries gt slugify emb parse render mi st' entries)"

text \<open>\<open>item["path"].split("#")[0]\<close> for the items of the TOC.\<close>

definition toc_pages_of :: "openbook \<Rightarrow> string list" where
  "toc_pages_of ob = map (\<lambda>item. takeWhile (\<lambda>c. c \<noteq> CHR ''#'') (item_path item)) (nav_toc ob)"

definition nav_entry :: manifest_entry where
  "nav_entry = \<lparr>href = ''nav.xhtml'', opf_id = ''nav'',
                media_type = Some ''application/xhtml+xml'', properties = Some ''nav''\<rparr>"

definition ncx_entry :: manifest_entry where
  "ncx_entry = \<lparr>href = ''toc.ncx'', opf_id = ''ncx'',
                media_type = Some ''application/x-dtbncx+xml'', properties = None\<rparr>"

definition cover_entry :: manifest_entry where
  "cover_entry = \<lparr>href = ''cover.jpg'', opf_id = ''coverimage'',
                  media_type = Some ''image/jpeg'', properties = Some ''cover-image''\<rparr>"

definition initial_state :: "(string \<rightharpoonup> soup) \<Rightarrow> loop_state" where
  "initial_state disk = \<lparr>files = disk, manifest_entries = [], has_ncx = False, has_nav = False\<rparr>"

text \<open>
  Lines 421 to 461: the navigation document and the NCX are added when the loop has
  found none. (The contents of \<open>nav.xhtml\<close> do not bear on the manifest.)
\<close>

definition synthesize ::
  "'f isbn_extractor \<Rightarrow> 'f media_info \<Rightarrow> openbook \<Rightarrow> loop_state \<Rightarrow> error + manifest_entry list" where
  "synthesize extract_isbn mi ob st =
     (let entries1 = (if \<not> has_nav st then manifest_entries st @ [nav_entry]
                      else manifest_entries st)
      in if \<not> has_ncx st
         then (case build_ncx extract_isbn mi ob of
                 Inl e \<Rightarrow> Inl e
               | Inr ncx \<Rightarrow> Inr (entries1 @ [ncx_entry]))
         else Inr entries1)"

text \<open>
  The manifest entry list when the OPF is created (line 463), from the roster of the
  \<open>title-content\<close> group and the files already on disk.
\<close>

definition build_manifest ::
  "guesser \<Rightarrow> (string \<Rightarrow> string) \<Rightarrow> embedded \<Rightarrow> parser \<Rightarrow> renderer \<Rightarrow> 'f isbn_extractor
     \<Rightarrow> 'f media_info \<Rightarrow> openbook
     \<Rightarrow> (string \<rightharpoonup> soup) \<Rightarrow> roster_entry list \<Rightarrow> error + manifest_entry list" where
  "build_manifest gt slugify emb parse render extract_isbn mi ob disk roster =
     (let title_entries =
            filter (\<lambda>e. filter_content gt (entry_path e) mi (toc_pages_of ob)) roster
      in case process_entries gt slugify emb parse render mi (initial_state disk) title_entries of
           Inl e \<Rightarrow> Inl e
         | Inr st \<Rightarrow> synthesize extract_isbn mi ob st)"

text \<open>Lines 475 to 489: the items of the manifest element, the cover last when there is one.\<close>

definition manifest_items :: "bool \<Rightarrow> manifest_entry list \<Rightarrow> manifest_entry list" where
  "manifest_items has_cover entries = (if has_cover then entries @ [cover_entry] else entries)"

definition nav_count :: "manifest_entry list \<Rightarrow> nat" where
  "nav_count entries = length (filter (\<lambda>me. properties me = Some ''nav'') entries)"

text \<open>The soup that the loop inspects for an XHTML entry: the saved file or the patched response.\<close>

definition inspected_soup :: "embedded \<Rightarrow> loop_state \<Rightarrow> roster_entry \<Rightarrow> error + soup" where
  "inspected_soup emb st entry =
     (case files st (drop 1 (entry_path entry)) of
        Some saved \<Rightarrow> Inr saved
      | None \<Rightarrow> patch_soup emb (entry_response entry))"


text \<open>Closed examples for the loop.\<close>

definition nav_doc :: soup where
  "nav_doc =
     [Tag ''html'' []
        [Tag ''body'' []
           [Tag ''svg'' [] [], Tag ''nav'' [(''epub:type'', ''toc'')] []]]]"

definition nav_doc_patched :: soup where
  "nav_doc_patched =
     [Tag ''html'' [(''xmlns'', ''http://www.w3.org/1999/xhtml'')]
        [Tag ''body'' []
           [Tag ''svg'' [(''xmlns'', ''http://www.w3.org/2000/svg''),
                         (''xmlns:xlink'', ''http://www.w3.org/1999/xlink'')] [],
            Tag ''nav'' [(''epub:type'', ''toc'')] []]]]"

definition ebook_info :: "(string \<times> (string \<times> string) list) list media_info" where
  "ebook_info = \<lparr>type_id = ''ebook'', media_id = ''1234'', formats = []\<rparr>"

definition book_example :: openbook where
  "book_example =
     \<lparr>title_main = ''T'', creator_names = [''A''], nav_toc = [], catalog_spine = []\<rparr>"

definition xhtml_entry :: "string \<Rightarrow> string \<Rightarrow> string option \<Rightarrow> manifest_entry" where
  "xhtml_entry h i p =
     \<lparr>href = h, opf_id = i, media_type = Some ''application/xhtml+xml'', properties = p\<rparr>"

section \<open>Properties\<close>

subsection \<open>Content Selector\<close>


text \<open>
  C4 (as amended). For a magazine, an entry whose path begins with \<open>/pages/\<close> or
  \<open>/thumbnails/\<close> and whose guessed media type begins with \<open>image/\<close> is dropped; and in
  the roster of three page images and two XHTML entries, one of them in the TOC, only the
  XHTML entry of the TOC is kept.
\<close>

theorem filter_content_drops_magazine_images:
  "(type_id mi = LibbyMediaTypes_Magazine \<longrightarrow> gt (drop 1 p) = Some mt \<longrightarrow> prefix ''image/'' mt
      \<longrightarrow> (prefix ''/pages/'' p \<or> prefix ''/thumbnails/'' p)
      \<longrightarrow> \<not> filter_content gt p mi toc_pages)
   \<and> title_content_entries guess_type_std
        \<lparr>type_id = ''magazine'', media_id = ''1'', formats = ()\<rparr>
        [''stories/s1.xhtml'']
        [''/pages/p1.jpg'', ''/pages/p2.jpg'', ''/pages/p3.jpg'',
         ''/stories/s1.xhtml'', ''/stories/s2.xhtml'']
      = [''/stories/s1.xhtml'']"
proof
  show "type_id mi = LibbyMediaTypes_Magazine \<longrightarrow> gt (drop 1 p) = Some mt \<longrightarrow> prefix ''image/'' mt
      \<longrightarrow> (prefix ''/pages/'' p \<or> prefix ''/thumbnails/'' p)
      \<longrightarrow> \<not> filter_content gt p mi toc_pages"
    by (auto simp: filter_content_def truthy_str_def Let_def)
next
  show "title_content_entries guess_type_std
        \<lparr>type_id = ''magazine'', media_id = ''1'', formats = ()\<rparr>
        [''stories/s1.xhtml'']
        [''/pages/p1.jpg'', ''/pages/p2.jpg'', ''/pages/p3.jpg'',
         ''/stories/s1.xhtml'', ''/stories/s2.xhtml'']
      = [''/stories/s1.xhtml'']"
    by (simp add: title_content_entries_def filter_content_def truthy_str_def Let_def
        guess_type_std_def splitext_ext_def lower_char_def Let_def LibbyMediaTypes_Magazine_def)
qed

theorem filter_content_drops_magazine_images_witness:
  "\<not> filter_content guess_type_std ''/thumbnails/t1.png''
        \<lparr>type_id = ''magazine'', media_id = ''1'', formats = ()\<rparr> [''stories/s1.xhtml'']"
  using filter_content_drops_magazine_images
    [of "\<lparr>type_id = ''magazine'', media_id = ''1'', formats = ()\<rparr>" guess_type_std
        "''/thumbnails/t1.png''" "''image/png''" "[''stories/s1.xhtml'']"]
  by (simp add: guess_type_std_def splitext_ext_def lower_char_def Let_def LibbyMediaTypes_Magazine_def)

text \<open>
  C4 as stated fails: the prefix alone does not drop an entry. An XHTML page under
  \<open>/pages/\<close> that the TOC lists is kept.
\<close>

theorem filter_content_prefix_counterexample:
  "prefix ''/pages/'' ''/pages/contents.xhtml''
   \<and> type_id \<lparr>type_id = ''magazine'', media_id = ''1'', formats = ()\<rparr> = LibbyMediaTypes_Magazine
   \<and> filter_content guess_type_std ''/pages/contents.xhtml''
        \<lparr>type_id = ''magazine'', media_id = ''1'', formats = ()\<rparr> [''pages/contents.xhtml'']"
  by (simp add: filter_content_def truthy_str_def Let_def
        guess_type_std_def splitext_ext_def lower_char_def Let_def LibbyMediaTypes_Magazine_def)

text \<open>
  C10. When the media type of the entry's path cannot be guessed, neither magazine rule
  applies, whatever the media type of the title: the entry is kept exactly when its path
  does not start with \<open>/_d/\<close>.
\<close>

theorem filter_content_unguessable:
  "gt (drop 1 p) = None \<Longrightarrow> filter_content gt p mi toc_pages = (\<not> prefix ''/_d/'' p)"
  by (simp add: filter_content_def truthy_str_def Let_def)

theorem filter_content_unguessable_witness:
  "guess_type_std (drop 1 ''/pages/cover'') = None
   \<and> filter_content guess_type_std ''/pages/cover''
        \<lparr>type_id = ''magazine'', media_id = ''1'', formats = ()\<rparr> []
   \<and> \<not> filter_content guess_type_std ''/_d/font''
        \<lparr>type_id = ''magazine'', media_id = ''1'', formats = ()\<rparr> []"
  using filter_content_unguessable [of guess_type_std "''/pages/cover''"
       "\<lparr>type_id = ''magazine'', media_id = ''1'', formats = ()\<rparr>" "[]"]
    filter_content_unguessable [of guess_type_std "''/_d/font''"
       "\<lparr>type_id = ''magazine'', media_id = ''1'', formats = ()\<rparr>" "[]"]
  by (simp add: guess_type_std_def splitext_ext_def lower_char_def Let_def)


subsection \<open>Spine Orderer\<close>

lemma cmp_lt_spine_key:
  "cmp_lt (\<lambda>a b. sort_spine_entries a b toc_pages) a b
     = (spine_key toc_pages a < spine_key toc_pages b)"
  by (auto simp: cmp_lt_def sort_spine_entries_def spine_key_def Let_def less_prod_def)

lemma insort_cmp_spine_key:
  "insort_cmp (\<lambda>a b. sort_spine_entries a b toc_pages) x ys
     = insort_key (spine_key toc_pages) x ys"
  by (induction ys) (auto simp: cmp_lt_spine_key)

lemma sort_spine_sort_key: "sort_spine toc_pages xs = sort_key (spine_key toc_pages) xs"
  by (induction xs) (simp_all add: sort_spine_def sorted_cmp_def insort_cmp_spine_key sort_key_def)

lemma set_sort_spine: "set (sort_spine toc_pages xs) = set xs"
  by (simp add: sort_spine_sort_key)

lemma sorted_sort_spine: "sorted (map (spine_key toc_pages) (sort_spine toc_pages xs))"
  by (simp add: sort_spine_sort_key)

lemma sorted_key_not_after:
  "sorted (map f zs) \<Longrightarrow> f x < f y \<Longrightarrow> x \<notin> set (dropWhile (\<lambda>z. z \<noteq> y) zs)"
  by (induction zs) (auto simp: not_le [symmetric])

lemma sort_spine_precedes:
  assumes "a \<in> set xs" "b \<in> set xs" "spine_key toc_pages a < spine_key toc_pages b"
  shows "precedes a b (sort_spine toc_pages xs)"
  unfolding precedes_def
  using assms sorted_key_not_after [OF sorted_sort_spine, of toc_pages a b xs]
  by (simp add: set_sort_spine)

lemma list_index_Inr_iff: "(\<exists>i. list_index ys x = Inr i) = (x \<in> set ys)"
  by (induction ys) (auto split: sum.splits)

lemma list_index_Inl_iff: "(list_index ys x = Inl e) = (x \<notin> set ys \<and> e = ValueError)"
  by (induction ys) (auto split: sum.splits)

lemma list_index_first:
  "list_index ys x = Inr i \<Longrightarrow> i < length ys \<and> ys ! i = x \<and> x \<notin> set (take i ys)"
proof (induction ys arbitrary: i)
  case Nil then show ?case by simp
next
  case (Cons y ys)
  show ?case
  proof (cases "y = x")
    case True with Cons.prems show ?thesis by simp
  next
    case False
    with Cons.prems obtain k where k: "list_index ys x = Inr k" "i = Suc k"
      by (auto split: sum.splits)
    with Cons.IH [OF k(1)] False show ?thesis by auto
  qed
qed

lemma list_index_replicate:
  "a \<noteq> x \<Longrightarrow> list_index (replicate n a @ ys) x
     = (case list_index ys x of Inl e \<Rightarrow> Inl e | Inr i \<Rightarrow> Inr (n + i))"
  by (induction n) (auto split: sum.splits)

text \<open>
  C2 (as amended). The TOC index of a path is the index of its first occurrence, which is
  what \<open>toc_pages.index\<close> returns. If the path of spine entry \<open>a\<close> has TOC index \<open>i\<close>
  and the path of spine entry \<open>b\<close> has TOC index \<open>j\<close> with \<open>i < j\<close>, then \<open>a\<close>
  precedes \<open>b\<close> in the sorted spine (for a book and for a magazine). And the spine
  a, b, c at positions 0, 1, 2 with the TOC order c, a is sorted to c, a, b.
\<close>

theorem spine_entries_toc_order:
  "(a \<in> set spine \<and> b \<in> set spine
      \<and> list_index toc_pages (odread_original_path a) = Inr i
      \<and> list_index toc_pages (odread_original_path b) = Inr j \<and> i < j
     \<longrightarrow> precedes a b (spine_entries mi toc_pages spine))
   \<and> sort_spine [''c'', ''a'']
        [\<lparr>odread_original_path = ''a'', odread_spine_position = 0\<rparr>,
         \<lparr>odread_original_path = ''b'', odread_spine_position = 1\<rparr>,
         \<lparr>odread_original_path = ''c'', odread_spine_position = 2\<rparr>]
      = [\<lparr>odread_original_path = ''c'', odread_spine_position = 2\<rparr>,
         \<lparr>odread_original_path = ''a'', odread_spine_position = 0\<rparr>,
         \<lparr>odread_original_path = ''b'', odread_spine_position = 1\<rparr>]"
proof (intro conjI impI)
  assume h: "a \<in> set spine \<and> b \<in> set spine
      \<and> list_index toc_pages (odread_original_path a) = Inr i
      \<and> list_index toc_pages (odread_original_path b) = Inr j \<and> i < j"
  then have "odread_original_path a \<in> set toc_pages" "odread_original_path b \<in> set toc_pages"
    using list_index_Inr_iff by fastforce+
  with h have mem: "a \<in> set (spine_filter mi toc_pages spine)"
      "b \<in> set (spine_filter mi toc_pages spine)"
    by (simp_all add: spine_filter_def)
  from h have "spine_key toc_pages a < spine_key toc_pages b"
    by (simp add: spine_key_def toc_rank_def less_prod_def)
  with mem show "precedes a b (spine_entries mi toc_pages spine)"
    unfolding spine_entries_def by (rule sort_spine_precedes)
next
  show "sort_spine [''c'', ''a'']
        [\<lparr>odread_original_path = ''a'', odread_spine_position = 0\<rparr>,
         \<lparr>odread_original_path = ''b'', odread_spine_position = 1\<rparr>,
         \<lparr>odread_original_path = ''c'', odread_spine_position = 2\<rparr>]
      = [\<lparr>odread_original_path = ''c'', odread_spine_position = 2\<rparr>,
         \<lparr>odread_original_path = ''a'', odread_spine_position = 0\<rparr>,
         \<lparr>odread_original_path = ''b'', odread_spine_position = 1\<rparr>]"
    by (simp add: sort_spine_def sorted_cmp_def cmp_lt_def sort_spine_entries_def toc_rank_def)
qed


theorem spine_entries_toc_order_witness:
  "precedes \<lparr>odread_original_path = ''c'', odread_spine_position = 2\<rparr>
            \<lparr>odread_original_path = ''a'', odread_spine_position = 0\<rparr>
     (spine_entries \<lparr>type_id = ''magazine'', media_id = ''1'', formats = ()\<rparr> [''c'', ''a'']
        [\<lparr>odread_original_path = ''a'', odread_spine_position = 0\<rparr>,
         \<lparr>odread_original_path = ''b'', odread_spine_position = 1\<rparr>,
         \<lparr>odread_original_path = ''c'', odread_spine_position = 2\<rparr>])"
  using spine_entries_toc_order
    [of "\<lparr>odread_original_path = ''c'', odread_spine_position = 2\<rparr>"
        "[\<lparr>odread_original_path = ''a'', odread_spine_position = 0\<rparr>,
         \<lparr>odread_original_path = ''b'', odread_spine_position = 1\<rparr>,
         \<lparr>odread_original_path = ''c'', odread_spine_position = 2\<rparr>]"
        "\<lparr>odread_original_path = ''a'', odread_spine_position = 0\<rparr>"
        "[''c'', ''a'']" 0 1 "\<lparr>type_id = ''magazine'', media_id = ''1'', formats = ()\<rparr>"]
  by simp

text \<open>
  C2 as stated fails when a page occurs twice in the TOC page list (two TOC items of one
  page, their fragments stripped): with the TOC pages b, a, b the path a appears at
  index 1 and the path b at index 2, yet b is sorted in front of a.
\<close>

theorem spine_toc_index_counterexample:
  "[''b'', ''a'', ''b''] ! 1 = odread_original_path \<lparr>odread_original_path = ''a'', odread_spine_position = 0\<rparr>
   \<and> [''b'', ''a'', ''b''] ! 2 = odread_original_path \<lparr>odread_original_path = ''b'', odread_spine_position = 1\<rparr>
   \<and> (1::nat) < 2
   \<and> sort_spine [''b'', ''a'', ''b'']
        [\<lparr>odread_original_path = ''a'', odread_spine_position = 0\<rparr>,
         \<lparr>odread_original_path = ''b'', odread_spine_position = 1\<rparr>]
      = [\<lparr>odread_original_path = ''b'', odread_spine_position = 1\<rparr>,
         \<lparr>odread_original_path = ''a'', odread_spine_position = 0\<rparr>]
   \<and> \<not> precedes \<lparr>odread_original_path = ''a'', odread_spine_position = 0\<rparr>
                 \<lparr>odread_original_path = ''b'', odread_spine_position = 1\<rparr>
        (sort_spine [''b'', ''a'', ''b'']
          [\<lparr>odread_original_path = ''a'', odread_spine_position = 0\<rparr>,
           \<lparr>odread_original_path = ''b'', odread_spine_position = 1\<rparr>])"
  by (simp add: sort_spine_def sorted_cmp_def cmp_lt_def sort_spine_entries_def toc_rank_def
      precedes_def)

text \<open>
  For a magazine the entry b of that spine, absent from the TOC, is removed by the filter
  in front of the sort (lines 500 to 508).
\<close>

lemma spine_entries_magazine_example:
  "spine_entries \<lparr>type_id = ''magazine'', media_id = ''1'', formats = ()\<rparr> [''c'', ''a'']
        [\<lparr>odread_original_path = ''a'', odread_spine_position = 0\<rparr>,
         \<lparr>odread_original_path = ''b'', odread_spine_position = 1\<rparr>,
         \<lparr>odread_original_path = ''c'', odread_spine_position = 2\<rparr>]
      = [\<lparr>odread_original_path = ''c'', odread_spine_position = 2\<rparr>,
         \<lparr>odread_original_path = ''a'', odread_spine_position = 0\<rparr>]"
  by (simp add: spine_entries_def spine_filter_def LibbyMediaTypes_Magazine_def
      sort_spine_def sorted_cmp_def cmp_lt_def sort_spine_entries_def toc_rank_def)

subsection \<open>The sentinel rank 999\<close>

lemma spine_entries_ebook:
  "type_id mi \<noteq> LibbyMediaTypes_Magazine \<Longrightarrow> spine_entries mi toc_pages spine = sort_spine toc_pages spine"
  by (simp add: spine_entries_def spine_filter_def)

lemma toc_rank_in_toc: "in_toc toc_pages a \<Longrightarrow> 0 \<le> toc_rank toc_pages a \<and> toc_rank toc_pages a < int (length toc_pages)"
proof -
  assume "in_toc toc_pages a"
  then obtain i where i: "list_index toc_pages (odread_original_path a) = Inr i"
    using list_index_Inr_iff [of toc_pages "odread_original_path a"] by (auto simp: in_toc_def)
  from list_index_first [OF i] i show ?thesis by (simp add: toc_rank_def)
qed

lemma toc_rank_not_in_toc: "\<not> in_toc toc_pages a \<Longrightarrow> toc_rank toc_pages a = 999"
  using list_index_Inr_iff [of toc_pages "odread_original_path a"]
  by (auto simp: in_toc_def toc_rank_def split: sum.splits)

lemma spine_entries_unmatched_last:
  assumes "length toc_pages \<le> 999" "type_id mi \<noteq> LibbyMediaTypes_Magazine"
    and "m \<in> set spine" "u \<in> set spine" "in_toc toc_pages m" "\<not> in_toc toc_pages u"
  shows "precedes m u (spine_entries mi toc_pages spine)"
proof -
  have "spine_key toc_pages m < spine_key toc_pages u"
    using assms(1) toc_rank_in_toc [OF assms(5)] toc_rank_not_in_toc [OF assms(6)]
    by (simp add: spine_key_def less_prod_def)
  then show ?thesis
    using assms(2,3,4) by (simp add: spine_entries_ebook sort_spine_precedes)
qed

lemma spine_entries_unmatched_by_position:
  assumes "type_id mi \<noteq> LibbyMediaTypes_Magazine"
    and "u \<in> set spine" "v \<in> set spine" "\<not> in_toc toc_pages u" "\<not> in_toc toc_pages v"
    and "odread_spine_position u < odread_spine_position v"
  shows "precedes u v (spine_entries mi toc_pages spine)"
proof -
  have "spine_key toc_pages u < spine_key toc_pages v"
    using assms(6) toc_rank_not_in_toc [OF assms(4)] toc_rank_not_in_toc [OF assms(5)]
    by (simp add: spine_key_def less_prod_def)
  then show ?thesis
    using assms(1,2,3) by (simp add: spine_entries_ebook sort_spine_precedes)
qed

text \<open>
  C1. The rank of an entry absent from the TOC is the constant 999, not a value above
  every TOC index. With a TOC page list of 1001 pages, the entry b of TOC index 1000
  and the entry x absent from the TOC, the book's spine b, x is sorted to x, b: the
  absent entry comes in front of the present one.
\<close>

theorem spine_sentinel_999_failing_input:
  "in_toc (replicate 1000 ''a'' @ [''b'']) \<lparr>odread_original_path = ''b'', odread_spine_position = 0\<rparr>
   \<and> \<not> in_toc (replicate 1000 ''a'' @ [''b'']) \<lparr>odread_original_path = ''x'', odread_spine_position = 1\<rparr>
   \<and> spine_entries \<lparr>type_id = ''ebook'', media_id = ''1'', formats = ()\<rparr>
        (replicate 1000 ''a'' @ [''b''])
        [\<lparr>odread_original_path = ''b'', odread_spine_position = 0\<rparr>,
         \<lparr>odread_original_path = ''x'', odread_spine_position = 1\<rparr>]
      = [\<lparr>odread_original_path = ''x'', odread_spine_position = 1\<rparr>,
         \<lparr>odread_original_path = ''b'', odread_spine_position = 0\<rparr>]"
proof -
  let ?T = "replicate 1000 ''a'' @ [''b'']"
  let ?b = "\<lparr>odread_original_path = ''b'', odread_spine_position = 0\<rparr>"
  let ?x = "\<lparr>odread_original_path = ''x'', odread_spine_position = 1\<rparr>"
  have rb: "toc_rank ?T ?b = 1000"
    by (simp add: toc_rank_def list_index_replicate)
  have nx: "\<not> in_toc ?T ?x" by (simp add: in_toc_def)
  have rx: "toc_rank ?T ?x = 999" using nx by (rule toc_rank_not_in_toc)
  have ib: "in_toc ?T ?b" by (simp add: in_toc_def)
  have "sort_spine ?T [?b, ?x] = [?x, ?b]"
    by (simp add: sort_spine_def sorted_cmp_def cmp_lt_def sort_spine_entries_def rb rx)
  then show ?thesis using ib nx
    by (simp add: spine_entries_ebook LibbyMediaTypes_Magazine_def)
qed


subsection \<open>NCX synthesis\<close>


text \<open>
  C6. Whenever the open book names a creator, \<open>_build_ncx\<close> returns an NCX whose only
  \<open>dtb:uid\<close> is the ISBN that \<open>extract_isbn\<close> finds among the formats of the ids
  \<open>ebook-overdrive\<close> and \<open>magazine-overdrive\<close> when it finds one (a non-empty string),
  and the catalog media id otherwise. (Without a creator \<open>openbook["creator"][0]\<close> raises
  and no NCX is written: \<open>build_ncx_no_creator\<close>.)
\<close>

theorem build_ncx_uid:
  "creator_names ob \<noteq> [] \<Longrightarrow>
     (\<exists>ncx. build_ncx extract_isbn mi ob = Inr ncx
        \<and> dtb_uids ncx =
            [case extract_isbn (formats mi)
                    [LibbyFormats_EBookOverdrive, LibbyFormats_MagazineOverDrive] of
               None \<Rightarrow> media_id mi
             | Some isbn \<Rightarrow> (if isbn = [] then media_id mi else isbn)])"
  by (cases "creator_names ob")
     (auto simp: build_ncx_def dtb_uids_def or_else_def truthy_str_def Let_def split: option.splits)

lemma build_ncx_no_creator: "creator_names ob = [] \<Longrightarrow> build_ncx extract_isbn mi ob = Inl IndexError"
  by (simp add: build_ncx_def Let_def)

theorem build_ncx_uid_witness:
  "(\<exists>ncx. build_ncx extract_isbn_spec
       \<lparr>type_id = ''ebook'', media_id = ''1234'',
        formats = [(''ebook-overdrive'', [(''ISBN'', ''9780000000002'')])]\<rparr>
       \<lparr>title_main = ''T'', creator_names = [''A''], nav_toc = [], catalog_spine = []\<rparr> = Inr ncx
     \<and> dtb_uids ncx = [''9780000000002''])
   \<and> (\<exists>ncx. build_ncx extract_isbn_spec
       \<lparr>type_id = ''ebook'', media_id = ''1234'',
        formats = [(''ebook-kindle'', [(''ISBN'', ''9780000000002'')])]\<rparr>
       \<lparr>title_main = ''T'', creator_names = [''A''], nav_toc = [], catalog_spine = []\<rparr> = Inr ncx
     \<and> dtb_uids ncx = [''1234''])"
  using build_ncx_uid [of "\<lparr>title_main = ''T'', creator_names = [''A''], nav_toc = [], catalog_spine = []\<rparr>"
      extract_isbn_spec "\<lparr>type_id = ''ebook'', media_id = ''1234'',
        formats = [(''ebook-overdrive'', [(''ISBN'', ''9780000000002'')])]\<rparr>"]
    build_ncx_uid [of "\<lparr>title_main = ''T'', creator_names = [''A''], nav_toc = [], catalog_spine = []\<rparr>"
      extract_isbn_spec "\<lparr>type_id = ''ebook'', media_id = ''1234'',
        formats = [(''ebook-kindle'', [(''ISBN'', ''9780000000002'')])]\<rparr>"]
  by (simp add: extract_isbn_spec_def LibbyFormats_EBookOverdrive_def LibbyFormats_MagazineOverDrive_def)


subsection \<open>The magazine CSS patch\<close>




lemma re_match_Lit:
  "re_match (Lit l # items) s gs
     = (if prefix l s then re_match items (drop (length l) s) (fold consume l gs) else None)"
proof (induction l arbitrary: s gs)
  case Nil then show ?case by simp
next
  case (Cons c cs)
  show ?case by (cases s) (simp_all add: Cons.IH)
qed

lemma re_match_StarG_Lit:
  "re_match (StarG p # Lit (c # cs) # items) s gs = Some r \<Longrightarrow> \<not> p c
     \<Longrightarrow> \<exists>t. dropWhile p s = c # t"
proof (induction s arbitrary: gs)
  case Nil then show ?case by simp
next
  case (Cons d ds)
  show ?case
  proof (cases "p d")
    case True
    show ?thesis
    proof (cases "re_match (StarG p # Lit (c # cs) # items) ds (consume d gs)")
      case None
      with True Cons.prems show ?thesis by (auto split: if_splits)
    next
      case (Some r')
      with True Cons.prems have "re_match (StarG p # Lit (c # cs) # items) ds (consume d gs) = Some r"
        by simp
      from Cons.IH [OF this Cons.prems(2)] True show ?thesis by simp
    qed
  next
    case False
    with Cons.prems show ?thesis by (auto split: if_splits)
  qed
qed

lemma re_match_block_head:
  assumes "re_match (GOpen n # Lit l # StarG p # Lit (c # cs) # items) s gs = Some r" "\<not> p c"
  shows "prefix l s \<and> (\<exists>t. dropWhile p (drop (length l) s) = c # t)"
proof -
  from assms(1) have m: "re_match (Lit l # StarG p # Lit (c # cs) # items) s ((n, True, []) # gs) = Some r"
    by simp
  show ?thesis
  proof (cases "prefix l s")
    case False
    with m show ?thesis by (simp only: re_match_Lit if_False option.distinct)
  next
    case True
    with m have "re_match (StarG p # Lit (c # cs) # items) (drop (length l) s)
        (fold consume l ((n, True, []) # gs)) = Some r"
      by (simp only: re_match_Lit if_True)
    from re_match_StarG_Lit [OF this assms(2)] True show ?thesis by simp
  qed
qed

lemma patch_re_match_block:
  assumes "re_match patch_magazine_css_re s [] = Some r"
  shows "block_at s"
proof -
  have nb: "\<not> re_space CHR ''{''" by (simp add: re_space_def)
  have len: "length ''#article-body'' = 13" by simp
  from re_match_block_head [OF assms [unfolded patch_magazine_css_re_def] nb]
  show ?thesis unfolding block_at_def len by auto
qed

lemma self_in_tails: "s \<in> set (tails s)"
  by (cases s) simp_all

lemma re_sub_12_no_match:
  "\<forall>t \<in> set (tails css). re_match items t [] = None \<Longrightarrow> re_sub_12 items 0 css = css"
  by (induction css) simp_all

text \<open>
  C5. The patch turns \<open>#article-body{color:red;overflow-x: hidden;padding:0}\<close> into
  \<open>#article-body{color:red;padding:0}\<close>, and it returns every CSS text without an
  \<open>#article-body\<close> rule block as it is.
\<close>

theorem patch_magazine_css_spec:
  "patch_magazine_css ''#article-body{color:red;overflow-x: hidden;padding:0}''
     = ''#article-body{color:red;padding:0}''
   \<and> (\<not> has_article_body_block css \<longrightarrow> patch_magazine_css css = css)"
proof (intro conjI impI)
  show "patch_magazine_css ''#article-body{color:red;overflow-x: hidden;padding:0}''
     = ''#article-body{color:red;padding:0}''"
    by (simp add: patch_magazine_css_def patch_magazine_css_re_def consume_def close_group_def
      group_def re_space_def not_brace_def)
next
  assume nb: "\<not> has_article_body_block css"
  have "\<forall>t \<in> set (tails css). re_match patch_magazine_css_re t [] = None"
  proof
    fix t assume t: "t \<in> set (tails css)"
    with nb have "\<not> block_at t" by (auto simp: has_article_body_block_def)
    with patch_re_match_block [of t] show "re_match patch_magazine_css_re t [] = None"
      by (cases "re_match patch_magazine_css_re t []") auto
  qed
  then show "patch_magazine_css css = css"
    unfolding patch_magazine_css_def by (rule re_sub_12_no_match)
qed

theorem patch_magazine_css_spec_witness:
  "\<not> has_article_body_block ''body{overflow-x: hidden;margin:0}''
   \<and> patch_magazine_css ''body{overflow-x: hidden;margin:0}'' = ''body{overflow-x: hidden;margin:0}''"
  using patch_magazine_css_spec [of "''body{overflow-x: hidden;margin:0}''"]
  by (simp add: has_article_body_block_def block_at_def)


subsection \<open>Structural cleanup\<close>


lemma all_tags_map_tags: "all_tags P (map_tags f t) = all_tags (\<lambda>h. P (f h)) t"
  by (induction t) auto

lemma all_tags_trivial: "(\<And>h. P h) \<Longrightarrow> all_tags P t"
  by (induction t) auto

lemma all_tags_mono: "all_tags P t \<Longrightarrow> (\<And>h. P h \<Longrightarrow> Q h) \<Longrightarrow> all_tags Q t"
  by (induction t) auto

lemma map_tags_fixed: "all_tags (\<lambda>h. f h = h) t \<Longrightarrow> map_tags f t = t"
  by (induction t) (auto simp: map_idI)

lemma all_tags_decompose_in: "all_tags P t \<Longrightarrow> all_tags P (decompose_in nm t)"
  by (induction t) auto

lemma all_tags_not_named: "all_tags (\<lambda>h. fst h \<noteq> nm) t \<Longrightarrow> \<not> is_tag_named nm t"
  by (cases t) auto

lemma decompose_in_fixed: "all_tags (\<lambda>h. fst h \<noteq> nm) t \<Longrightarrow> decompose_in nm t = t"
proof (induction t)
  case (Tag n a cs)
  then have "filter (\<lambda>c. \<not> is_tag_named nm c) cs = cs"
    by (auto simp: filter_id_conv dest: all_tags_not_named)
  with Tag show ?case by (auto simp: map_idI)
qed simp_all

lemma all_tags_remove_tag:
  "\<forall>c \<in> set soup. all_tags P c \<Longrightarrow> \<forall>c \<in> set (remove_tag nm soup). all_tags P c"
  by (auto simp: remove_tag_def all_tags_decompose_in)

lemma decompose_in_no_tag: "\<not> is_tag_named nm t \<Longrightarrow> all_tags (\<lambda>h. fst h \<noteq> nm) (decompose_in nm t)"
  by (induction t) auto

lemma remove_tag_no_tag: "\<forall>c \<in> set (remove_tag nm soup). all_tags (\<lambda>h. fst h \<noteq> nm) c"
  by (auto simp: remove_tag_def decompose_in_no_tag)

lemma remove_tag_fixed:
  "\<forall>c \<in> set soup. all_tags (\<lambda>h. fst h \<noteq> nm) c \<Longrightarrow> remove_tag nm soup = soup"
  unfolding remove_tag_def
  by (simp add: filter_id_conv all_tags_not_named decompose_in_fixed map_idI)

lemma update_first_all_tags:
  "update_first p f t = Some t' \<Longrightarrow> all_tags P t \<Longrightarrow> (\<And>u. all_tags P u \<Longrightarrow> all_tags P (f u)) \<Longrightarrow> all_tags P t'"
  "update_first_in p f ts = Some ts' \<Longrightarrow> \<forall>c \<in> set ts. all_tags P c \<Longrightarrow> (\<And>u. all_tags P u \<Longrightarrow> all_tags P (f u)) \<Longrightarrow> \<forall>c \<in> set ts'. all_tags P c"
proof (induction p f t and p f ts arbitrary: t' and ts' rule: update_first_update_first_in.induct)
  case (1 p f n a cs)
  show ?case
  proof (cases "p (Tag n a cs)")
    case True
    with "1.prems" show ?thesis by auto
  next
    case False
    with "1.prems"(1) obtain cs' where cs': "update_first_in p f cs = Some cs'" "t' = Tag n a cs'"
      by auto
    from "1.IH" [OF False cs'(1)] "1.prems"(2,3) cs'(2) show ?thesis by auto
  qed
next
  case (5 p f c cs)
  show ?case
  proof (cases "update_first p f c")
    case (Some c')
    with "5.prems"(1) have ts': "ts' = c' # cs" by simp
    from "5.IH"(1) [OF Some] "5.prems"(2,3) have "all_tags P c'" by auto
    with ts' "5.prems"(2) show ?thesis by auto
  next
    case None
    with "5.prems"(1) obtain cs' where cs': "update_first_in p f cs = Some cs'" "ts' = c # cs'"
      by auto
    from "5.IH"(2) [OF None cs'(1)] "5.prems"(2,3) cs'(2) show ?thesis by auto
  qed
qed simp_all

lemma update_first_idem_gen:
  "update_first p f t = Some t' \<Longrightarrow> (\<And>n a cs cs'. p (Tag n a cs) = p (Tag n a cs'))
     \<Longrightarrow> (\<And>u. p u \<Longrightarrow> p (f u) \<and> f (f u) = f u \<and> (\<exists>n a cs. f u = Tag n a cs))
     \<Longrightarrow> update_first p f t' = Some t'"
  "update_first_in p f ts = Some ts' \<Longrightarrow> (\<And>n a cs cs'. p (Tag n a cs) = p (Tag n a cs'))
     \<Longrightarrow> (\<And>u. p u \<Longrightarrow> p (f u) \<and> f (f u) = f u \<and> (\<exists>n a cs. f u = Tag n a cs))
     \<Longrightarrow> update_first_in p f ts' = Some ts'"
proof (induction p f t and p f ts arbitrary: t' and ts' rule: update_first_update_first_in.induct)
  case (1 p f n a cs)
  show ?case
  proof (cases "p (Tag n a cs)")
    case True
    with "1.prems"(1) have t': "t' = f (Tag n a cs)" by simp
    from "1.prems"(3) [OF True] obtain n' a' cs'
      where pf': "p (f (Tag n a cs))" "f (f (Tag n a cs)) = f (Tag n a cs)"
        "f (Tag n a cs) = Tag n' a' cs'"
      by auto
    with t' show ?thesis by (metis update_first.simps(1))
  next
    case False
    with "1.prems"(1) obtain cs' where cs': "update_first_in p f cs = Some cs'" "t' = Tag n a cs'"
      by auto
    from False "1.prems"(2) [of n a cs cs'] have np: "\<not> p (Tag n a cs')" by simp
    from "1.IH" [OF False cs'(1) "1.prems"(2,3)] cs'(2) np show ?thesis by simp
  qed
next
  case (5 p f c cs)
  show ?case
  proof (cases "update_first p f c")
    case (Some c')
    with "5.prems"(1) have ts': "ts' = c' # cs" by simp
    from "5.IH"(1) [OF Some "5.prems"(2,3)] ts' show ?thesis by simp
  next
    case None
    with "5.prems"(1) obtain cs' where cs': "update_first_in p f cs = Some cs'" "ts' = c # cs'"
      by auto
    from "5.IH"(2) [OF None cs'(1) "5.prems"(2,3)] cs'(2) None show ?thesis by simp
  qed
qed simp_all

lemma truthy_set_attr: "v \<noteq> [] \<Longrightarrow> truthy_str (map_of (set_attr k v a) k)"
  by (induction a) (auto simp: truthy_str_def)

lemma map_of_set_attr: "map_of (set_attr k v a) = (map_of a)(k \<mapsto> v)"
  by (induction a) auto

lemma set_default_idem: "v \<noteq> [] \<Longrightarrow> set_default k v (set_default k v a) = set_default k v a"
  by (simp add: set_default_def truthy_set_attr)

lemma truthy_set_default: "v \<noteq> [] \<Longrightarrow> truthy_str (map_of (set_default k v a) k)"
  by (simp add: set_default_def truthy_set_attr)

lemma map_of_set_default_other: "k' \<noteq> k \<Longrightarrow> map_of (set_default k v a) k' = map_of a k'"
  by (simp add: set_default_def map_of_set_attr)

lemma set_default_fixed: "truthy_str (map_of a k) \<Longrightarrow> set_default k v a = a"
  by (simp add: set_default_def)

lemma html_namespace_idem: "html_namespace (html_namespace soup) = html_namespace soup"
proof (cases "update_first_in (is_tag_named ''html'') html_xmlns soup")
  case None
  then show ?thesis by (simp add: html_namespace_def)
next
  case (Some soup')
  have "update_first_in (is_tag_named ''html'') html_xmlns soup' = Some soup'"
  proof (rule update_first_idem_gen(2) [OF Some])
    fix u assume "is_tag_named ''html'' u"
    then show "is_tag_named ''html'' (html_xmlns u) \<and> html_xmlns (html_xmlns u) = html_xmlns u
        \<and> (\<exists>n a cs. html_xmlns u = Tag n a cs)"
      by (cases u) (simp_all add: set_default_idem)
  qed simp
  with Some show ?thesis by (simp add: html_namespace_def)
qed


lemma map_tags_comp: "map_tags f (map_tags g t) = map_tags (\<lambda>h. f (g h)) t"
  by (induction t) auto

lemma map_tags_cong_all: "all_tags (\<lambda>h. f h = g h) t \<Longrightarrow> map_tags f t = map_tags g t"
  by (induction t) auto

lemma map_tags_ext: "(\<And>h. f h = g h) \<Longrightarrow> map_tags f t = map_tags g t"
  by (rule map_tags_cong_all) (simp add: all_tags_trivial)

lemma map_tags_id: "(\<And>h. f h = h) \<Longrightarrow> map_tags f t = t"
  by (rule map_tags_fixed) (simp add: all_tags_trivial)

lemma fold_remove_attribute:
  "fold remove_attribute ks soup
     = map (map_tags (\<lambda>h. (fst h, filter (\<lambda>kv. fst kv \<notin> set ks) (snd h)))) soup"
proof (induction ks arbitrary: soup)
  case Nil
  show ?case by (simp add: map_tags_id map_idI)
next
  case (Cons k ks)
  have step: "\<And>t. map_tags (\<lambda>h. (fst h, filter (\<lambda>kv. fst kv \<notin> set ks) (snd h)))
            (map_tags (\<lambda>(n, a). (n, del_attr k a)) t)
        = map_tags (\<lambda>h. (fst h, filter (\<lambda>kv. fst kv \<notin> set (k # ks)) (snd h))) t"
    unfolding map_tags_comp
    by (rule map_tags_ext) (auto simp: del_attr_def split_beta intro: filter_cong)
  have "fold remove_attribute (k # ks) soup = fold remove_attribute ks (remove_attribute k soup)"
    by simp
  also have "\<dots> = map (map_tags (\<lambda>h. (fst h, filter (\<lambda>kv. fst kv \<notin> set ks) (snd h))))
       (remove_attribute k soup)"
    by (rule Cons.IH)
  also have "\<dots> = map (map_tags (\<lambda>h. (fst h, filter (\<lambda>kv. fst kv \<notin> set (k # ks)) (snd h)))) soup"
    unfolding remove_attribute_def map_map o_def step ..
  finally show ?case .
qed

lemma soup3_map_tags:
  "fold convert_tag [''figcaption'']
     (svg_namespaces
       (if version = ''2.0''
        then fold convert_tag [''nav'', ''section''] (fold remove_attribute remove_attributes soup)
        else soup))
   = map (map_tags (cleanup_head version)) soup"
proof (cases "version = ''2.0''")
  case True
  have "\<And>t. map_tags (\<lambda>(n, a). (if n = ''figcaption'' then ''div'' else n, a))
          (map_tags (\<lambda>(n, a). if n = ''svg''
               then (n, set_default ''xmlns:xlink'' ''http://www.w3.org/1999/xlink''
                 (set_default ''xmlns'' ''http://www.w3.org/2000/svg'' a)) else (n, a))
            (map_tags (\<lambda>(n, a). (if n = ''section'' then ''div'' else n, a))
              (map_tags (\<lambda>(n, a). (if n = ''nav'' then ''div'' else n, a))
                (map_tags (\<lambda>h. (fst h, filter (\<lambda>kv. fst kv \<notin> set remove_attributes) (snd h))) t))))
        = map_tags (cleanup_head ''2.0'') t"
    unfolding map_tags_comp
    by (rule map_tags_ext) (simp add: cleanup_head_def Let_def split_beta)
  with True show ?thesis
    by (simp add: fold_remove_attribute convert_tag_def svg_namespaces_def)
next
  case False
  have "\<And>t. map_tags (\<lambda>(n, a). (if n = ''figcaption'' then ''div'' else n, a))
          (map_tags (\<lambda>(n, a). if n = ''svg''
               then (n, set_default ''xmlns:xlink'' ''http://www.w3.org/1999/xlink''
                 (set_default ''xmlns'' ''http://www.w3.org/2000/svg'' a)) else (n, a)) t)
        = map_tags (cleanup_head version) t"
    unfolding map_tags_comp
    by (rule map_tags_ext) (simp add: cleanup_head_def Let_def split_beta False)
  with False show ?thesis
    by (simp add: convert_tag_def svg_namespaces_def)
qed

lemma set_set_attr: "set (set_attr k v a) \<subseteq> insert (k, v) (set a)"
  by (induction a) auto

lemma set_set_default: "set (set_default k v a) \<subseteq> insert (k, v) (set a)"
  using set_set_attr [of k v a] by (auto simp: set_default_def)

lemma set_default_keys:
  "kv \<in> set (set_default k v (set_default k' v' a)) \<Longrightarrow> fst kv = k \<or> fst kv = k' \<or> kv \<in> set a"
proof -
  assume "kv \<in> set (set_default k v (set_default k' v' a))"
  with set_set_default [of k v "set_default k' v' a"]
  have "kv = (k, v) \<or> kv \<in> set (set_default k' v' a)" by blast
  with set_set_default [of k' v' a]
  have "kv = (k, v) \<or> kv = (k', v') \<or> kv \<in> set a" by blast
  then show ?thesis by auto
qed

lemma xmlns_not_removed: "''xmlns'' \<notin> set remove_attributes" "''xmlns:xlink'' \<notin> set remove_attributes"
  by (simp_all add: remove_attributes_def)

lemma clean_cleanup_head: "clean_head version (cleanup_head version h)"
  using xmlns_not_removed
  by (auto simp: clean_head_def cleanup_head_def Let_def truthy_set_default
      map_of_set_default_other dest!: set_default_keys)

lemma cleanup_head_fixed: "clean_head version h \<Longrightarrow> cleanup_head version h = h"
  by (cases h) (auto simp: clean_head_def cleanup_head_def Let_def set_default_fixed filter_id_conv)


lemma cleanup_soup_eq:
  "cleanup_soup version soup
     = html_namespace (remove_tag ''base''
         (map (map_tags (cleanup_head version))
            (if version = ''2.0'' then replace_doctype soup else soup)))"
proof (cases "version = ''2.0''")
  case True
  with soup3_map_tags [of version "replace_doctype soup"] show ?thesis
    by (simp add: cleanup_soup_def Let_def)
next
  case False
  with soup3_map_tags [of version soup] show ?thesis
    by (simp add: cleanup_soup_def Let_def)
qed

lemma first_doctype_map_tags: "first_doctype (map (map_tags f) soup) = first_doctype soup"
  by (induction soup rule: first_doctype.induct) simp_all

lemma first_doctype_remove_tag: "first_doctype (remove_tag nm soup) = first_doctype soup"
  unfolding remove_tag_def by (induction soup rule: first_doctype.induct) simp_all

lemma update_first_html_xmlns_Tag:
  "update_first p html_xmlns c = Some c' \<Longrightarrow> \<exists>n a cs. c' = Tag n a cs"
  by (cases c) (auto split: if_splits)

lemma first_doctype_update_first:
  "update_first_in p html_xmlns soup = Some soup' \<Longrightarrow> first_doctype soup' = first_doctype soup"
proof (induction soup arbitrary: soup' rule: first_doctype.induct)
  case 1
  then show ?case by simp
next
  case (2 d items)
  then show ?case by auto
next
  case (3 n a cs items)
  show ?case
  proof (cases "update_first p html_xmlns (Tag n a cs)")
    case None
    with 3 show ?thesis by auto
  next
    case (Some c')
    from update_first_html_xmlns_Tag [OF Some] obtain n' a' cs' where "c' = Tag n' a' cs'" by blast
    with Some "3.prems" show ?thesis by auto
  qed
next
  case (4 s items)
  then show ?case by auto
qed

lemma first_doctype_html_namespace: "first_doctype (html_namespace soup) = first_doctype soup"
  by (cases "update_first_in (is_tag_named ''html'') html_xmlns soup")
     (simp_all add: html_namespace_def first_doctype_update_first)

lemma first_doctype_replace_doctype:
  "first_doctype (replace_doctype soup) = None
   \<or> first_doctype (replace_doctype soup) = Some modified_doctype"
  by (induction soup rule: first_doctype.induct) simp_all

lemma replace_doctype_fixed:
  "first_doctype soup = None \<or> first_doctype soup = Some modified_doctype
     \<Longrightarrow> replace_doctype soup = soup"
  by (induction soup rule: first_doctype.induct) simp_all

lemma soup_all_map_tags: "(\<And>h. P (f h)) \<Longrightarrow> soup_all P (map (map_tags f) soup)"
  by (simp add: soup_all_def all_tags_map_tags all_tags_trivial)

lemma soup_all_remove_tag: "soup_all P soup \<Longrightarrow> soup_all P (remove_tag nm soup)"
  unfolding soup_all_def by (rule all_tags_remove_tag)

lemma soup_all_html_namespace:
  assumes "soup_all P soup" and P: "\<And>n a. P (n, a) \<Longrightarrow> P (n, set_default ''xmlns'' ''http://www.w3.org/1999/xhtml'' a)"
  shows "soup_all P (html_namespace soup)"
proof (cases "update_first_in (is_tag_named ''html'') html_xmlns soup")
  case None
  with assms(1) show ?thesis by (simp add: html_namespace_def)
next
  case (Some soup')
  have "\<And>u. all_tags P u \<Longrightarrow> all_tags P (html_xmlns u)"
  proof -
    fix u assume "all_tags P u" then show "all_tags P (html_xmlns u)"
      by (cases u) (auto intro: P)
  qed
  from update_first_all_tags(2) [OF Some assms(1) [unfolded soup_all_def] this] Some
  show ?thesis by (simp add: html_namespace_def soup_all_def)
qed

lemma clean_head_set_xmlns:
  "clean_head version (n, a) \<Longrightarrow> clean_head version (n, set_default ''xmlns'' v a)"
proof -
  assume c: "clean_head version (n, a)"
  have k: "\<And>kv. kv \<in> set (set_default ''xmlns'' v a) \<Longrightarrow> fst kv = ''xmlns'' \<or> kv \<in> set a"
    using set_set_default [of "''xmlns''" v a] by auto
  have t: "truthy_str (map_of a ''xmlns'') \<Longrightarrow> set_default ''xmlns'' v a = a"
    by (rule set_default_fixed)
  show ?thesis
    using c xmlns_not_removed(1)
    by (auto simp: clean_head_def t map_of_set_default_other dest!: k)
qed

lemma soup_all_fixed: "soup_all (\<lambda>h. f h = h) soup \<Longrightarrow> map (map_tags f) soup = soup"
  by (simp add: soup_all_def map_tags_fixed map_idI)

lemma soup_all_mono: "soup_all P soup \<Longrightarrow> (\<And>h. P h \<Longrightarrow> Q h) \<Longrightarrow> soup_all Q soup"
  unfolding soup_all_def using all_tags_mono by blast

lemma cleanup_soup_idempotent: "cleanup_soup version (cleanup_soup version soup) = cleanup_soup version soup"
proof -
  let ?d = "if version = ''2.0'' then replace_doctype soup else soup"
  let ?m = "map (map_tags (cleanup_head version)) ?d"
  let ?b = "remove_tag ''base'' ?m"
  let ?r = "html_namespace ?b"
  have r: "cleanup_soup version soup = ?r" by (rule cleanup_soup_eq)
  have clean: "soup_all (clean_head version) ?r"
    by (intro soup_all_html_namespace soup_all_remove_tag soup_all_map_tags
        clean_cleanup_head clean_head_set_xmlns)
  have nobase: "soup_all (\<lambda>h. fst h \<noteq> ''base'') ?r"
    by (rule soup_all_html_namespace) (simp_all add: soup_all_def remove_tag_no_tag)
  have dt: "first_doctype ?r = first_doctype ?d"
    by (simp only: first_doctype_html_namespace first_doctype_remove_tag first_doctype_map_tags)
  have d: "(if version = ''2.0'' then replace_doctype ?r else ?r) = ?r"
  proof (cases "version = ''2.0''")
    case True
    with dt first_doctype_replace_doctype [of soup]
    have "first_doctype ?r = None \<or> first_doctype ?r = Some modified_doctype" by simp
    from replace_doctype_fixed [OF this] True show ?thesis by simp
  next
    case False
    then show ?thesis by simp
  qed
  have m: "map (map_tags (cleanup_head version)) ?r = ?r"
    by (rule soup_all_fixed) (rule soup_all_mono [OF clean], rule cleanup_head_fixed)
  have b: "remove_tag ''base'' ?r = ?r"
    by (rule remove_tag_fixed) (use nobase in \<open>simp add: soup_all_def\<close>)
  have h: "html_namespace ?r = ?r" by (rule html_namespace_idem)
  have "cleanup_soup version ?r = ?r"
    unfolding cleanup_soup_eq [of version ?r] d m b h ..
  then show ?thesis unfolding r .
qed


lemma payload_texts_differ: "payload_text_1 \<noteq> payload_text_2"
  by (simp add: payload_text_1_def payload_text_2_def)

text \<open>
  C7 (as amended). \<open>_cleanup_soup\<close> is idempotent on the soup in memory, for the version
  \<open>2.0\<close> and for any other: a second call on the same soup changes nothing, so that
  what \<open>str(soup)\<close> writes after two calls is what it writes after one, whatever the
  writer.
\<close>

theorem cleanup_soup_idempotence:
  "cleanup_soup version (cleanup_soup version soup) = cleanup_soup version soup
   \<and> render (cleanup_soup version (cleanup_soup version soup))
       = render (cleanup_soup version soup)"
  by (simp add: cleanup_soup_idempotent)

theorem cleanup_soup_idempotence_witness:
  "cleanup_soup ''2.0'' (cleanup_soup ''2.0'' doctype_soup_0) = cleanup_soup ''2.0'' doctype_soup_0
   \<and> render_std (cleanup_soup ''2.0'' (cleanup_soup ''2.0'' doctype_soup_0))
       = render_std (cleanup_soup ''2.0'' doctype_soup_0)"
  by (rule cleanup_soup_idempotence [where version = "''2.0''" and soup = doctype_soup_0
        and render = render_std])

text \<open>
  C7 as stated fails: patching a written document again does not give the same bytes.
  The patcher reads the text \<open>doctype_text_0\<close> and writes \<open>doctype_text_1\<close>, with a
  newline behind the document type declaration; patching \<open>doctype_text_1\<close>, which has
  been through the cleanup and holds no embedded body, gives \<open>doctype_text_2\<close>, with two
  newlines there.
\<close>

theorem patch_xhtml_doctype_counterexample:
  "patch_xhtml parse_example render_std emb_example doctype_text_0 = Inr doctype_text_1
   \<and> patch_xhtml parse_example render_std emb_example doctype_text_1 = Inr doctype_text_2
   \<and> doctype_text_2 \<noteq> doctype_text_1"
  by code_simp

text \<open>
  The decoding step is not idempotent either: in memory, the soup \<open>outer_doc\<close>, whose
  body holds a script with an embedded document whose body holds such a script again, is
  patched to \<open>patched_once\<close>, and \<open>patched_once\<close> to \<open>patched_twice\<close>.
\<close>

lemma patch_soup_outer_doc: "patch_soup emb_example outer_doc = Inr patched_once"
  by (simp add: patch_soup_def decode_body_def outer_doc_def find_first_def find_all_def
      soup_descendants_def is_js_script_def emb_example_def payload_soup_1_def
      cleanup_soup_def epub_version_def svg_namespaces_def convert_tag_def remove_tag_def
      html_namespace_def set_default_def truthy_str_def patched_once_def)

lemma patch_soup_patched_once: "patch_soup emb_example patched_once = Inr patched_twice"
  using payload_texts_differ
  by (simp add: patch_soup_def decode_body_def find_first_def find_all_def
      soup_descendants_def is_js_script_def emb_example_def payload_soup_2_def
      cleanup_soup_def epub_version_def svg_namespaces_def convert_tag_def remove_tag_def
      html_namespace_def set_default_def truthy_str_def patched_once_def patched_twice_def)

lemma patched_twice_differs: "patched_twice \<noteq> patched_once"
  by (simp add: patched_once_def patched_twice_def)


subsection \<open>Manifest Builder\<close>


lemma check_properties_nav:
  "properties (fst (check_properties soup (me, nav))) = Some ''nav''
     \<longleftrightarrow> (find_first (attr_is ''epub:type'' ''toc'') soup \<noteq> None \<or> (properties me = Some ''nav'' \<and> find_all (is_tag_named ''svg'') soup = []))"
  by (auto simp: check_properties_def Let_def)

lemma check_properties_flag:
  "snd (check_properties soup (me, nav))
     = (nav \<or> find_first (attr_is ''epub:type'' ''toc'') soup \<noteq> None)"
  by (auto simp: check_properties_def Let_def)

lemma check_properties_fields:
  "href (fst (check_properties soup (me, nav))) = href me"
  "opf_id (fst (check_properties soup (me, nav))) = opf_id me"
  "media_type (fst (check_properties soup (me, nav))) = media_type me"
  by (auto simp: check_properties_def Let_def)

lemma process_entry_shape:
  assumes "process_entry gt slugify emb parse render mi st entry = Inr st'"
  shows "\<exists>me. manifest_entries st' = manifest_entries st @ [me]
     \<and> has_nav st' = (has_nav st \<or> properties me = Some ''nav'')
     \<and> has_ncx st' = (has_ncx st \<or> gt (drop 1 (entry_path entry)) = Some ''application/x-dtbncx+xml'')
     \<and> entry_id gt slugify (entry_path entry) = Inr (opf_id me)
     \<and> href me = drop 1 (entry_path entry)
     \<and> media_type me = gt (drop 1 (entry_path entry))"
proof -
  from assms obtain ident where ident: "entry_id gt slugify (entry_path entry) = Inr ident"
    by (auto simp: process_entry_def Let_def split: sum.splits)
  let ?me = "\<lparr>href = drop 1 (entry_path entry), opf_id = ident,
     media_type = gt (drop 1 (entry_path entry)), properties = None\<rparr>"
  let ?x = "gt (drop 1 (entry_path entry)) = Some ''application/xhtml+xml''"
  show ?thesis
  proof (cases "files st (drop 1 (entry_path entry))")
    case (Some saved)
    show ?thesis
    proof (cases ?x)
      case True
      with assms ident Some
      have "st' = add_entry (fst (check_properties saved (?me, has_nav st)))
                    (st\<lparr>has_nav := snd (check_properties saved (?me, has_nav st))\<rparr>)"
        by (simp add: process_entry_def Let_def)
      with True ident show ?thesis
        by (auto simp: add_entry_def check_properties_flag check_properties_nav check_properties_fields)
    next
      case False
      with assms ident Some show ?thesis
        by (auto simp: process_entry_def Let_def add_entry_def split: if_splits)
    qed
  next
    case None
    show ?thesis
    proof (cases ?x)
      case True
      with assms ident None obtain soup where soup: "patch_soup emb (entry_response entry) = Inr soup"
        and "st' = add_entry (fst (check_properties soup (?me, has_nav st)))
                    (st\<lparr>files := (files st)(drop 1 (entry_path entry) \<mapsto> parse (render soup)),
                        has_nav := snd (check_properties soup (?me, has_nav st))\<rparr>)"
        by (auto simp: process_entry_def Let_def split: sum.splits)
      with True ident show ?thesis
        by (auto simp: add_entry_def check_properties_flag check_properties_nav check_properties_fields)
    next
      case False
      with assms ident None show ?thesis
        by (auto simp: process_entry_def Let_def add_entry_def split: if_splits)
    qed
  qed
qed

text \<open>
  The entry that the loop adds carries \<open>nav\<close> exactly when it is an XHTML entry whose
  inspected soup holds an element with \<open>epub:type="toc"\<close>.
\<close>

lemma process_entry_nav_iff:
  assumes "process_entry gt slugify emb parse render mi st entry = Inr st'"
  shows "properties (last (manifest_entries st')) = Some ''nav''
     \<longleftrightarrow> gt (drop 1 (entry_path entry)) = Some ''application/xhtml+xml''
         \<and> (\<exists>soup. inspected_soup emb st entry = Inr soup
               \<and> find_first (attr_is ''epub:type'' ''toc'') soup \<noteq> None)"
proof -
  from assms obtain ident where ident: "entry_id gt slugify (entry_path entry) = Inr ident"
    by (auto simp: process_entry_def Let_def split: sum.splits)
  let ?me = "\<lparr>href = drop 1 (entry_path entry), opf_id = ident,
     media_type = gt (drop 1 (entry_path entry)), properties = None\<rparr>"
  let ?x = "gt (drop 1 (entry_path entry)) = Some ''application/xhtml+xml''"
  show ?thesis
  proof (cases "files st (drop 1 (entry_path entry))")
    case (Some saved)
    show ?thesis
    proof (cases ?x)
      case True
      with assms ident Some
      have "st' = add_entry (fst (check_properties saved (?me, has_nav st)))
                    (st\<lparr>has_nav := snd (check_properties saved (?me, has_nav st))\<rparr>)"
        by (simp add: process_entry_def Let_def)
      with True Some show ?thesis
        by (simp add: add_entry_def check_properties_nav inspected_soup_def)
    next
      case False
      with assms ident Some show ?thesis
        by (auto simp: process_entry_def Let_def add_entry_def split: if_splits)
    qed
  next
    case None
    show ?thesis
    proof (cases ?x)
      case True
      with assms ident None obtain soup where soup: "patch_soup emb (entry_response entry) = Inr soup"
        and "st' = add_entry (fst (check_properties soup (?me, has_nav st)))
                    (st\<lparr>files := (files st)(drop 1 (entry_path entry) \<mapsto> parse (render soup)),
                        has_nav := snd (check_properties soup (?me, has_nav st))\<rparr>)"
        by (auto simp: process_entry_def Let_def split: sum.splits)
      with True None show ?thesis
        by (simp add: add_entry_def check_properties_nav inspected_soup_def)
    next
      case False
      with assms ident None show ?thesis
        by (auto simp: process_entry_def Let_def add_entry_def split: if_splits)
    qed
  qed
qed

text \<open>
  C9. When the loop adds the manifest entry of an XHTML entry whose inspected document
  (the saved file, or the patched response) holds both an \<open>svg\<close> element and an element
  with \<open>epub:type="toc"\<close>, the entry's properties are \<open>nav\<close>, not \<open>svg\<close>, and the
  \<open>has_nav\<close> flag is set.
\<close>

theorem svg_and_toc_is_nav:
  "process_entry gt slugify emb parse render mi st entry = Inr st'
   \<and> gt (drop 1 (entry_path entry)) = Some ''application/xhtml+xml''
   \<and> inspected_soup emb st entry = Inr soup
   \<and> find_all (is_tag_named ''svg'') soup \<noteq> []
   \<and> find_first (attr_is ''epub:type'' ''toc'') soup \<noteq> None
   \<longrightarrow> (\<exists>me. manifest_entries st' = manifest_entries st @ [me] \<and> properties me = Some ''nav'')
       \<and> has_nav st'"
proof
  assume h: "process_entry gt slugify emb parse render mi st entry = Inr st'
   \<and> gt (drop 1 (entry_path entry)) = Some ''application/xhtml+xml''
   \<and> inspected_soup emb st entry = Inr soup
   \<and> find_all (is_tag_named ''svg'') soup \<noteq> []
   \<and> find_first (attr_is ''epub:type'' ''toc'') soup \<noteq> None"
  then obtain ident where ident: "entry_id gt slugify (entry_path entry) = Inr ident"
    by (auto simp: process_entry_def Let_def split: sum.splits)
  let ?me = "\<lparr>href = drop 1 (entry_path entry), opf_id = ident,
     media_type = gt (drop 1 (entry_path entry)), properties = None\<rparr>"
  have "st' = add_entry (fst (check_properties soup (?me, has_nav st)))
                (st'\<lparr>manifest_entries := manifest_entries st\<rparr>)
        \<and> has_nav st' = snd (check_properties soup (?me, has_nav st))"
  proof (cases "files st (drop 1 (entry_path entry))")
    case (Some saved)
    with h have "saved = soup" by (simp add: inspected_soup_def)
    with h ident Some show ?thesis
      by (auto simp: process_entry_def Let_def add_entry_def)
  next
    case None
    with h have "patch_soup emb (entry_response entry) = Inr soup" by (simp add: inspected_soup_def)
    with h ident None show ?thesis
      by (auto simp: process_entry_def Let_def add_entry_def)
  qed
  then have m: "manifest_entries st' = manifest_entries st @ [fst (check_properties soup (?me, has_nav st))]"
    and n: "has_nav st' = snd (check_properties soup (?me, has_nav st))"
    by (auto simp: add_entry_def dest: arg_cong [where f = manifest_entries])
  from h have "properties (fst (check_properties soup (?me, has_nav st))) = Some ''nav''"
    by (simp add: check_properties_nav)
  with m n h show "(\<exists>me. manifest_entries st' = manifest_entries st @ [me] \<and> properties me = Some ''nav'')
       \<and> has_nav st'"
    by (simp add: check_properties_flag)
qed



lemma nav_count_append: "nav_count (xs @ ys) = nav_count xs + nav_count ys"
  by (simp add: nav_count_def)


lemma nav_count_single: "nav_count [me] = (if properties me = Some ''nav'' then 1 else 0)"
  by (simp add: nav_count_def)

lemma process_entries_shape:
  "process_entries gt slugify emb parse render mi st es = Inr st' \<Longrightarrow>
     \<exists>mes. manifest_entries st' = manifest_entries st @ mes
       \<and> length mes = length es
       \<and> has_nav st' = (has_nav st \<or> 0 < nav_count mes)
       \<and> has_ncx st' = (has_ncx st \<or> (\<exists>e \<in> set es. gt (drop 1 (entry_path e)) = Some ''application/x-dtbncx+xml''))
       \<and> map (\<lambda>me. Inr (opf_id me)) mes = map (\<lambda>e. entry_id gt slugify (entry_path e)) es"
proof (induction es arbitrary: st)
  case Nil
  then show ?case by (simp add: nav_count_def)
next
  case (Cons e es)
  from Cons.prems obtain st1 where st1: "process_entry gt slugify emb parse render mi st e = Inr st1"
    and rest: "process_entries gt slugify emb parse render mi st1 es = Inr st'"
    by (auto split: sum.splits)
  from process_entry_shape [OF st1] obtain me where me:
    "manifest_entries st1 = manifest_entries st @ [me]"
    "has_nav st1 = (has_nav st \<or> properties me = Some ''nav'')"
    "has_ncx st1 = (has_ncx st \<or> gt (drop 1 (entry_path e)) = Some ''application/x-dtbncx+xml'')"
    "entry_id gt slugify (entry_path e) = Inr (opf_id me)"
    by (elim exE conjE)
  from Cons.IH [OF rest] obtain mes where mes:
    "manifest_entries st' = manifest_entries st1 @ mes"
    "length mes = length es"
    "has_nav st' = (has_nav st1 \<or> 0 < nav_count mes)"
    "has_ncx st' = (has_ncx st1 \<or> (\<exists>e \<in> set es. gt (drop 1 (entry_path e)) = Some ''application/x-dtbncx+xml''))"
    "map (\<lambda>me. Inr (opf_id me)) mes = map (\<lambda>e. entry_id gt slugify (entry_path e)) es"
    by (elim exE conjE)
  have "manifest_entries st' = manifest_entries st @ (me # mes)" using me(1) mes(1) by simp
  moreover have "length (me # mes) = length (e # es)" using mes(2) by simp
  moreover have "has_nav st' = (has_nav st \<or> 0 < nav_count (me # mes))"
    using me(2) mes(3) nav_count_append [of "[me]" mes] by (auto simp: nav_count_single)
  moreover have "has_ncx st' = (has_ncx st \<or> (\<exists>e \<in> set (e # es). gt (drop 1 (entry_path e)) = Some ''application/x-dtbncx+xml''))"
    using me(3) mes(4) by auto
  moreover have "map (\<lambda>me. Inr (opf_id me)) (me # mes) = map (\<lambda>e. entry_id gt slugify (entry_path e)) (e # es)"
    using me(4) mes(5) by simp
  ultimately show ?case by (intro exI [of _ "me # mes"] conjI)
qed

lemma initial_state_simps:
  "manifest_entries (initial_state disk) = []" "has_nav (initial_state disk) = False"
  "has_ncx (initial_state disk) = False" "files (initial_state disk) = disk"
  by (simp_all add: initial_state_def)


lemma build_manifest_shape:
  assumes "build_manifest gt slugify emb parse render extract_isbn mi ob disk roster = Inr m"
  obtains st where
    "process_entries gt slugify emb parse render mi (initial_state disk)
            (filter (\<lambda>e. filter_content gt (entry_path e) mi (toc_pages_of ob)) roster) = Inr st"
    "has_nav st \<longleftrightarrow> 0 < nav_count (manifest_entries st)"
    "length (manifest_entries st)
            = length (filter (\<lambda>e. filter_content gt (entry_path e) mi (toc_pages_of ob)) roster)"
    "has_ncx st \<longleftrightarrow> (\<exists>e \<in> set (filter (\<lambda>e. filter_content gt (entry_path e) mi (toc_pages_of ob)) roster).
              gt (drop 1 (entry_path e)) = Some ''application/x-dtbncx+xml'')"
    "map (\<lambda>me. Inr (opf_id me)) (manifest_entries st)
            = map (\<lambda>e. entry_id gt slugify (entry_path e))
                (filter (\<lambda>e. filter_content gt (entry_path e) mi (toc_pages_of ob)) roster)"
    "m = manifest_entries st @ (if has_nav st then [] else [nav_entry])
                 @ (if has_ncx st then [] else [ncx_entry])"
proof -
  let ?es = "filter (\<lambda>e. filter_content gt (entry_path e) mi (toc_pages_of ob)) roster"
  from assms obtain st where st: "process_entries gt slugify emb parse render mi (initial_state disk) ?es = Inr st"
    and syn: "synthesize extract_isbn mi ob st = Inr m"
    by (cases "process_entries gt slugify emb parse render mi (initial_state disk) ?es")
       (simp_all add: build_manifest_def Let_def)
  from process_entries_shape [OF st] obtain mes where mes:
    "manifest_entries st = manifest_entries (initial_state disk) @ mes"
    "length mes = length ?es"
    "has_nav st = (has_nav (initial_state disk) \<or> 0 < nav_count mes)"
    "has_ncx st = (has_ncx (initial_state disk) \<or> (\<exists>e \<in> set ?es. gt (drop 1 (entry_path e)) = Some ''application/x-dtbncx+xml''))"
    "map (\<lambda>me. Inr (opf_id me)) mes = map (\<lambda>e. entry_id gt slugify (entry_path e)) ?es"
    by (elim exE conjE)
  have eq: "manifest_entries st = mes" using mes(1) by (simp add: initial_state_simps)
  have m: "m = manifest_entries st @ (if has_nav st then [] else [nav_entry])
                 @ (if has_ncx st then [] else [ncx_entry])"
  proof (cases "has_ncx st")
    case True
    with syn show ?thesis by (simp add: synthesize_def Let_def split: if_splits)
  next
    case False
    with syn show ?thesis
      by (cases "build_ncx extract_isbn mi ob") (simp_all add: synthesize_def Let_def split: if_splits)
  qed
  show thesis
  proof (rule that [of st])
    show "process_entries gt slugify emb parse render mi (initial_state disk) ?es = Inr st" by (rule st)
    show "has_nav st \<longleftrightarrow> 0 < nav_count (manifest_entries st)"
      using mes(3) by (simp add: eq initial_state_simps)
    show "length (manifest_entries st) = length ?es" using mes(2) by (simp add: eq)
    show "has_ncx st \<longleftrightarrow> (\<exists>e \<in> set ?es. gt (drop 1 (entry_path e)) = Some ''application/x-dtbncx+xml'')"
      using mes(4) by (simp add: initial_state_simps)
    show "map (\<lambda>me. Inr (opf_id me)) (manifest_entries st)
            = map (\<lambda>e. entry_id gt slugify (entry_path e)) ?es"
      using mes(5) by (simp add: eq)
    show "m = manifest_entries st @ (if has_nav st then [] else [nav_entry])
                 @ (if has_ncx st then [] else [ncx_entry])" by (rule m)
  qed
qed


lemma sanitise_opf_id_result:
  "sanitise_opf_id slugify s = Inr i \<Longrightarrow>
     (i = slugify s \<or> i = ''id_'' @ slugify s) \<and> i \<noteq> [] \<and> \<not> isdigit (hd i)"
proof (cases "slugify s")
  case Nil
  assume "sanitise_opf_id slugify s = Inr i"
  with Nil show ?thesis by (simp add: sanitise_opf_id_def)
next
  case (Cons c cs)
  assume "sanitise_opf_id slugify s = Inr i"
  with Cons have r: "(if isdigit c then Inr (''id_'' @ c # cs) else Inr (c # cs)) = (Inr i :: error + string)"
    by (simp add: sanitise_opf_id_def)
  show ?thesis
  proof (cases "isdigit c")
    case True
    with r have "i = ''id_'' @ c # cs" by simp
    then show ?thesis unfolding Cons by (simp add: isdigit_def)
  next
    case False
    with r have "i = c # cs" by simp
    with False show ?thesis unfolding Cons by simp
  qed
qed

text \<open>
  C8 (as amended). The ids of the manifest items are, in order: for every entry of the
  loop \<open>ncx\<close> when its media type is that of an NCX and otherwise the slug of its
  relative path, prefixed with \<open>id_\<close> when the slug starts with a digit; then \<open>nav\<close>
  when the navigation document is synthesized, \<open>ncx\<close> when the NCX is synthesized, and
  \<open>coverimage\<close> when there is a cover. They are pairwise distinct exactly when the ids
  of the loop's entries are pairwise distinct and none of them is one of the added
  literal ids.
\<close>

theorem manifest_ids:
  "(build_manifest gt slugify emb parse render extract_isbn mi ob disk roster = Inr m \<longrightarrow>
     (let es = filter (\<lambda>e. filter_content gt (entry_path e) mi (toc_pages_of ob)) roster;
          ids = map opf_id (manifest_items has_cover m);
          n = length es
      in map Inr (take n ids) = map (\<lambda>e. entry_id gt slugify (entry_path e)) es
         \<and> drop n ids
             = (if 0 < nav_count (take n m) then [] else [''nav''])
               @ (if \<exists>e \<in> set es. gt (drop 1 (entry_path e)) = Some ''application/x-dtbncx+xml''
                  then [] else [''ncx''])
               @ (if has_cover then [''coverimage''] else [])
         \<and> (distinct ids \<longleftrightarrow> distinct (take n ids) \<and> set (take n ids) \<inter> set (drop n ids) = {})))
   \<and> (entry_id gt slugify p = Inr i \<longrightarrow>
        (if gt (drop 1 p) = Some ''application/x-dtbncx+xml'' then i = ''ncx''
         else (i = slugify (drop 1 p) \<or> i = ''id_'' @ slugify (drop 1 p))
              \<and> i \<noteq> [] \<and> \<not> isdigit (hd i)))"
proof (intro conjI impI)
  assume "build_manifest gt slugify emb parse render extract_isbn mi ob disk roster = Inr m"
  let ?es = "filter (\<lambda>e. filter_content gt (entry_path e) mi (toc_pages_of ob)) roster"
  from \<open>build_manifest gt slugify emb parse render extract_isbn mi ob disk roster = Inr m\<close>
  obtain st where
    "process_entries gt slugify emb parse render mi (initial_state disk) ?es = Inr st"
    and st: "has_nav st \<longleftrightarrow> 0 < nav_count (manifest_entries st)"
    "length (manifest_entries st) = length ?es"
    "has_ncx st \<longleftrightarrow> (\<exists>e \<in> set ?es. gt (drop 1 (entry_path e)) = Some ''application/x-dtbncx+xml'')"
    "map (\<lambda>me. Inr (opf_id me)) (manifest_entries st) = map (\<lambda>e. entry_id gt slugify (entry_path e)) ?es"
    "m = manifest_entries st @ (if has_nav st then [] else [nav_entry])
                 @ (if has_ncx st then [] else [ncx_entry])"
    by (rule build_manifest_shape)
  let ?ids = "map opf_id (manifest_items has_cover m)"
  let ?extra = "(if has_nav st then [] else [nav_entry]) @ (if has_ncx st then [] else [ncx_entry])
       @ (if has_cover then [cover_entry] else [])"
  have items: "manifest_items has_cover m = manifest_entries st @ ?extra"
    using st(5) by (simp add: manifest_items_def)
  have tk: "take (length ?es) ?ids = map opf_id (manifest_entries st)"
    unfolding items using st(2) by simp
  have tm: "take (length ?es) m = manifest_entries st"
    using st(2,5) by simp
  have dr: "drop (length ?es) ?ids = map opf_id ?extra"
    unfolding items using st(2) by simp
  have a: "map Inr (take (length ?es) ?ids) = map (\<lambda>e. entry_id gt slugify (entry_path e)) ?es"
    unfolding tk using st(4) by (simp add: comp_def)
  have b: "drop (length ?es) ?ids
             = (if 0 < nav_count (take (length ?es) m) then [] else [''nav''])
               @ (if \<exists>e \<in> set ?es. gt (drop 1 (entry_path e)) = Some ''application/x-dtbncx+xml''
                  then [] else [''ncx''])
               @ (if has_cover then [''coverimage''] else [])"
  proof -
    have "map opf_id ?extra = (if has_nav st then [] else [''nav''])
        @ (if has_ncx st then [] else [''ncx'']) @ (if has_cover then [''coverimage''] else [])"
      by (simp add: nav_entry_def ncx_entry_def cover_entry_def)
    then show ?thesis unfolding dr tm st(1) st(3) .
  qed
  have dx: "distinct (drop (length ?es) ?ids)"
    unfolding b by simp
  have "?ids = take (length ?es) ?ids @ drop (length ?es) ?ids" by simp
  then have c: "distinct ?ids \<longleftrightarrow> distinct (take (length ?es) ?ids)
      \<and> set (take (length ?es) ?ids) \<inter> set (drop (length ?es) ?ids) = {}"
    using dx distinct_append [of "take (length ?es) ?ids" "drop (length ?es) ?ids"] by simp
  from a b c show "let es = ?es; ids = map opf_id (manifest_items has_cover m); n = length es
      in map Inr (take n ids) = map (\<lambda>e. entry_id gt slugify (entry_path e)) es
         \<and> drop n ids
             = (if 0 < nav_count (take n m) then [] else [''nav''])
               @ (if \<exists>e \<in> set es. gt (drop 1 (entry_path e)) = Some ''application/x-dtbncx+xml''
                  then [] else [''ncx''])
               @ (if has_cover then [''coverimage''] else [])
         \<and> (distinct ids \<longleftrightarrow> distinct (take n ids) \<and> set (take n ids) \<inter> set (drop n ids) = {})"
    unfolding Let_def by (intro conjI)
next
  assume "entry_id gt slugify p = Inr i"
  then show "if gt (drop 1 p) = Some ''application/x-dtbncx+xml'' then i = ''ncx''
         else (i = slugify (drop 1 p) \<or> i = ''id_'' @ slugify (drop 1 p))
              \<and> i \<noteq> [] \<and> \<not> isdigit (hd i)"
    using sanitise_opf_id_result [of slugify "drop 1 p" i]
    by (auto simp: entry_id_def split: if_splits)
qed


lemma example_process_entry:
  "process_entry guess_type_std slugify_std emb_example parse_example render_std ebook_info (initial_state Map.empty)
       \<lparr>entry_path = ''/toc.xhtml'', entry_response = nav_doc\<rparr>
     = Inr \<lparr>files = [''toc.xhtml'' \<mapsto> parse_example (render_std nav_doc_patched)],
            manifest_entries = [xhtml_entry ''toc.xhtml'' ''tocxhtml'' (Some ''nav'')],
            has_ncx = False, has_nav = True\<rparr>"
proof -
  have p: "patch_soup emb_example nav_doc = Inr nav_doc_patched" by code_simp
  have g: "guess_type_std ''toc.xhtml'' = Some ''application/xhtml+xml''" by code_simp
  have i: "entry_id guess_type_std slugify_std ''/toc.xhtml'' = Inr ''tocxhtml''" by code_simp
  have c: "check_properties nav_doc_patched
      (\<lparr>href = ''toc.xhtml'', opf_id = ''tocxhtml'',
         media_type = Some ''application/xhtml+xml'', properties = None\<rparr>, False)
     = (xhtml_entry ''toc.xhtml'' ''tocxhtml'' (Some ''nav''), True)" by code_simp
  show ?thesis
    by (simp add: process_entry_def Let_def p g i c initial_state_def add_entry_def)
qed

theorem svg_and_toc_is_nav_witness:
  "(\<exists>me. manifest_entries
            \<lparr>files = [''toc.xhtml'' \<mapsto> parse_example (render_std nav_doc_patched)],
             manifest_entries = [xhtml_entry ''toc.xhtml'' ''tocxhtml'' (Some ''nav'')],
             has_ncx = False, has_nav = True\<rparr>
          = manifest_entries (initial_state Map.empty) @ [me]
        \<and> properties me = Some ''nav'')
   \<and> has_nav \<lparr>files = [''toc.xhtml'' \<mapsto> parse_example (render_std nav_doc_patched)],
              manifest_entries = [xhtml_entry ''toc.xhtml'' ''tocxhtml'' (Some ''nav'')],
              has_ncx = False, has_nav = True\<rparr>"
proof -
  have 1: "guess_type_std (drop 1 (entry_path \<lparr>entry_path = ''/toc.xhtml'', entry_response = nav_doc\<rparr>))
      = Some ''application/xhtml+xml''" by code_simp
  have 2: "inspected_soup emb_example (initial_state Map.empty)
       \<lparr>entry_path = ''/toc.xhtml'', entry_response = nav_doc\<rparr> = Inr nav_doc_patched"
    by code_simp
  have 3: "find_all (is_tag_named ''svg'') nav_doc_patched \<noteq> []" by code_simp
  have 4: "find_first (attr_is ''epub:type'' ''toc'') nav_doc_patched \<noteq> None" by code_simp
  show ?thesis
    by (rule svg_and_toc_is_nav [where gt = guess_type_std and slugify = slugify_std
          and emb = emb_example and parse = parse_example and render = render_std and mi = ebook_info and st = "initial_state Map.empty"
          and entry = "\<lparr>entry_path = ''/toc.xhtml'', entry_response = nav_doc\<rparr>"
          and soup = nav_doc_patched, THEN mp])
       (intro conjI example_process_entry 1 2 3 4)
qed

lemma example_manifest:
  "build_manifest guess_type_std slugify_std emb_example parse_example render_std extract_isbn_spec ebook_info
      book_example Map.empty [\<lparr>entry_path = ''/ch1.xhtml'', entry_response = payload_soup_2\<rparr>]
    = Inr [xhtml_entry ''ch1.xhtml'' ''ch1xhtml'' None, nav_entry, ncx_entry]"
  by code_simp



lemma example_entry_id: "entry_id guess_type_std slugify_std ''/1a/b.xhtml'' = Inr ''id_1abxhtml''"
  by code_simp

theorem manifest_ids_witness:
  "(let es = filter (\<lambda>e. filter_content guess_type_std (entry_path e) ebook_info
                           (toc_pages_of book_example))
                 [\<lparr>entry_path = ''/ch1.xhtml'', entry_response = payload_soup_2\<rparr>];
          ids = map opf_id (manifest_items True
                  [xhtml_entry ''ch1.xhtml'' ''ch1xhtml'' None, nav_entry, ncx_entry]);
          n = length es
      in map Inr (take n ids) = map (\<lambda>e. entry_id guess_type_std slugify_std (entry_path e)) es
         \<and> drop n ids
             = (if 0 < nav_count (take n [xhtml_entry ''ch1.xhtml'' ''ch1xhtml'' None, nav_entry, ncx_entry])
                then [] else [''nav''])
               @ (if \<exists>e \<in> set es. guess_type_std (drop 1 (entry_path e)) = Some ''application/x-dtbncx+xml''
                  then [] else [''ncx''])
               @ (if True then [''coverimage''] else [])
         \<and> (distinct ids \<longleftrightarrow> distinct (take n ids) \<and> set (take n ids) \<inter> set (drop n ids) = {}))
   \<and> (if guess_type_std (drop 1 ''/1a/b.xhtml'') = Some ''application/x-dtbncx+xml''
       then ''id_1abxhtml'' = ''ncx''
       else (''id_1abxhtml'' = slugify_std (drop 1 ''/1a/b.xhtml'')
               \<or> ''id_1abxhtml'' = ''id_'' @ slugify_std (drop 1 ''/1a/b.xhtml''))
            \<and> ''id_1abxhtml'' \<noteq> [] \<and> \<not> isdigit (hd ''id_1abxhtml''))"
proof -
  note t = manifest_ids [where gt = guess_type_std and slugify = slugify_std and emb = emb_example
      and parse = parse_example and render = render_std
      and extract_isbn = extract_isbn_spec and mi = ebook_info and ob = book_example
      and disk = Map.empty
      and roster = "[\<lparr>entry_path = ''/ch1.xhtml'', entry_response = payload_soup_2\<rparr>]"
      and m = "[xhtml_entry ''ch1.xhtml'' ''ch1xhtml'' None, nav_entry, ncx_entry]"
      and has_cover = True and p = "''/1a/b.xhtml''" and i = "''id_1abxhtml''"]
  show ?thesis
    by (intro conjI t [THEN conjunct1, THEN mp] t [THEN conjunct2, THEN mp]
        example_manifest example_entry_id)
qed

text \<open>
  C8 as stated fails: two NCX files of a roster both get the id \<open>ncx\<close>, and two paths
  with one slug get one id.
\<close>

theorem manifest_ids_counterexample:
  "build_manifest guess_type_std slugify_std emb_example parse_example render_std extract_isbn_spec ebook_info
      book_example Map.empty
      [\<lparr>entry_path = ''/toc.ncx'', entry_response = []\<rparr>,
       \<lparr>entry_path = ''/parts/toc.ncx'', entry_response = []\<rparr>]
    = Inr [\<lparr>href = ''toc.ncx'', opf_id = ''ncx'',
             media_type = Some ''application/x-dtbncx+xml'', properties = None\<rparr>,
           \<lparr>href = ''parts/toc.ncx'', opf_id = ''ncx'',
             media_type = Some ''application/x-dtbncx+xml'', properties = None\<rparr>,
           nav_entry]
   \<and> \<not> distinct (map opf_id (manifest_items False
         [\<lparr>href = ''toc.ncx'', opf_id = ''ncx'',
             media_type = Some ''application/x-dtbncx+xml'', properties = None\<rparr>,
          \<lparr>href = ''parts/toc.ncx'', opf_id = ''ncx'',
             media_type = Some ''application/x-dtbncx+xml'', properties = None\<rparr>,
          nav_entry]))
   \<and> build_manifest guess_type_std slugify_std emb_example parse_example render_std extract_isbn_spec ebook_info
      book_example Map.empty
      [\<lparr>entry_path = ''/a/b.xhtml'', entry_response = payload_soup_2\<rparr>,
       \<lparr>entry_path = ''/ab.xhtml'', entry_response = payload_soup_2\<rparr>]
    = Inr [xhtml_entry ''a/b.xhtml'' ''abxhtml'' None, xhtml_entry ''ab.xhtml'' ''abxhtml'' None,
           nav_entry, ncx_entry]"
  by code_simp

end
